theory Spec2Isabelle
  imports Main "HOL-Library.Word" "HOL-Library.Sublist"
begin

unbundle bit_operations_syntax

section \<open>The DSAM controller (dsamcontroller.ino)\<close>

text \<open>
  The sketch runs on an AVR Arduino, where \<open>word\<close> is an unsigned 16-bit integer.
  The three masks \<open>buttonWord\<close>, \<open>LEDWord\<close> and \<open>pinsToSet\<close> are \<open>16 word\<close>.
  Everything the sketch does to the outside world (pin modes, pin writes, delays, serial
  output) is recorded, in program order, in the \<open>trace\<close> field of the state.
\<close>

subsection \<open>Platform constants and the event trace\<close>

definition LOW :: int where "LOW = 0"
definition HIGH :: int where "HIGH = 1"
definition INPUT :: int where "INPUT = 0"
definition OUTPUT :: int where "OUTPUT = 1"
definition BIN :: int where "BIN = 2"
definition DEC :: int where "DEC = 10"

datatype event =
    SerialBegin int
  | SerialPrint string
  | SerialPrintln string
  | SerialPrintlnVersion
  | SerialPrintWord "16 word" int
  | SerialPrintlnWord "16 word" int
  | PinMode int int
  | DigitalWrite int int
  | Delay int

subsection \<open>Constants and tables (lines 23-80)\<close>

definition buttonBounceDelay :: int where "buttonBounceDelay = 500"
definition actionIdx :: nat where "actionIdx = 7"
definition nActions :: nat where "nActions = 3"
definition modeIdx :: nat where "modeIdx = 10"
definition nModes :: nat where "nModes = 4"
definition optIdx :: nat where "optIdx = 14"
definition nOptions :: nat where "nOptions = 2"

definition purcgBit :: nat where "purcgBit = 7"
definition loadBit :: nat where "loadBit = 8"
definition analyzeBit :: nat where "analyzeBit = 9"
definition discreteBit :: nat where "discreteBit = 10"
definition septumBit :: nat where "septumBit = 11"
definition loopABit :: nat where "loopABit = 12"
definition loopBBit :: nat where "loopBBit = 13"
definition diluteBit :: nat where "diluteBit = 14"
definition standardBit :: nat where "standardBit = 15"

definition buttonPins :: "int list" where
  "buttonPins = [0, 0, 0, 0, 0, 0, 0, 22, 23, 24, 25, 26, 27, 28, 29, 37]"
definition LEDPins :: "int list" where
  "LEDPins = [0, 0, 0, 0, 0, 0, 0, 36, 35, 34, 33, 32, 31, 30, 53, 52]"
definition outPins :: "int list" where
  "outPins = [0, 0, 0, 0, 51, 50, 49, 48, 47, 46, 45, 44, 43, 42, 41, 40]"

definition lsb :: "nat list" where
  "lsb = [15, 14, 13, 12, 11, 10, 9, 8, 7, 6, 5, 4, 3, 2, 1, 0]"

definition buttonSetsOneStep :: "16 word list" where
  "buttonSetsOneStep =
     [65247, 65263, 65271, 65275, 65375, 65391, 65399, 65403, 65439, 65455, 65463, 65467]"
definition setPinsOneStep :: "16 word list" where
  "setPinsOneStep =
     [64170, 64170, 63914, 64170, 63056, 64080, 64144, 63888, 64064, 64098, 63841, 64097]"

definition setLEDsDilute :: "16 word list" where
  "setLEDsDilute = [65437, 65453, 65461, 65465]"
definition setPinsDilute1 :: "16 word list" where
  "setPinsDilute1 = [64170, 64170, 63914, 64170]"
definition setPinsDilute2 :: "16 word list" where
  "setPinsDilute2 = [64064, 64098, 63841, 64097]"
definition diluteDelay :: int where "diluteDelay = 2000"

definition buttonSetsStandard :: "16 word" where "buttonSetsStandard = 65533"
definition setPinsStandard :: "16 word" where "setPinsStandard = 64140"
definition buttonSetStartup :: "16 word" where "buttonSetStartup = 65399"
definition setPinsStartup :: "16 word" where "setPinsStartup = 64144"

subsection \<open>Global variables (lines 84-91)\<close>

text \<open>
  The counters \<open>ipin\<close> and \<open>i\<close> are globals in the sketch, but each is assigned before
  every use (they are loop counters, and \<open>i\<close> also the index chosen by the dilute
  decision chain); they are bound variables of the functions below.
\<close>

record state =
  buttonWord :: "16 word"
  lastbuttonState :: "16 word"
  LEDWord :: "16 word"
  pinsToSet :: "16 word"
  buttonState :: int
  trace :: "event list"

definition initial_state :: state where
  "initial_state =
     \<lparr>buttonWord = 65535, lastbuttonState = 65535, LEDWord = 0, pinsToSet = 0,
      buttonState = 0, trace = []\<rparr>"

subsection \<open>The Arduino bit macros and output primitives\<close>

text \<open>
  From the Arduino core:
  \<^verbatim>\<open>bitRead(value, bit)  (((value) >> (bit)) & 0x01)\<close>,
  \<^verbatim>\<open>bitSet(value, bit)   ((value) |= (1UL << (bit)))\<close>,
  \<^verbatim>\<open>bitClear(value, bit) ((value) &= ~(1UL << (bit)))\<close>,
  \<^verbatim>\<open>bitWrite(value, bit, bitvalue) ((bitvalue) ? bitSet(value, bit) : bitClear(value, bit))\<close>.
  Every bit index of the sketch is below 16, so the 32-bit intermediate of \<open>1UL\<close>
  truncated to the 16-bit variable is the 16-bit operation.
\<close>

definition bitRead :: "16 word \<Rightarrow> nat \<Rightarrow> 16 word" where
  "bitRead v b = drop_bit b v AND 1"

definition bitSet :: "16 word \<Rightarrow> nat \<Rightarrow> 16 word" where
  "bitSet v b = v OR push_bit b 1"

definition bitClear :: "16 word \<Rightarrow> nat \<Rightarrow> 16 word" where
  "bitClear v b = v AND NOT (push_bit b 1)"

definition bitWrite :: "16 word \<Rightarrow> nat \<Rightarrow> int \<Rightarrow> 16 word" where
  "bitWrite v b bitvalue = (if bitvalue \<noteq> 0 then bitSet v b else bitClear v b)"

definition emit :: "event \<Rightarrow> state \<Rightarrow> state" where
  "emit e s = s\<lparr>trace := trace s @ [e]\<rparr>"

definition digitalWrite :: "int \<Rightarrow> int \<Rightarrow> state \<Rightarrow> state" where
  "digitalWrite pin v = emit (DigitalWrite pin v)"

definition pinMode :: "int \<Rightarrow> int \<Rightarrow> state \<Rightarrow> state" where
  "pinMode pin m = emit (PinMode pin m)"

definition delay :: "int \<Rightarrow> state \<Rightarrow> state" where
  "delay ms = emit (Delay ms)"

subsection \<open>displayStates (lines 305-314) and setOutputPins (lines 293-302)\<close>

definition displayStates :: "16 word \<Rightarrow> 16 word \<Rightarrow> state \<Rightarrow> state" where
  "displayStates inp outp s =
     (let s = emit (SerialPrint ''input '') s;
          s = emit (SerialPrintWord inp BIN) s;
          s = emit (SerialPrint '' '') s;
          s = emit (SerialPrintWord inp DEC) s;
          s = emit (SerialPrint '' set pins '') s;
          s = emit (SerialPrintWord outp BIN) s;
          s = emit (SerialPrint '' '') s;
          s = emit (SerialPrintlnWord outp DEC) s
      in s)"

text \<open>One iteration of the loop of \<open>setOutputPins\<close>, at physical bit \<open>b\<close>.\<close>

definition setOutputPins_step :: "16 word \<Rightarrow> nat \<Rightarrow> state \<Rightarrow> state" where
  "setOutputPins_step pinWord b s =
     (let bitValue = bitRead pinWord b in
      if bitValue \<noteq> 0 \<and> outPins ! (lsb ! b) \<noteq> 0
      then digitalWrite (outPins ! (lsb ! b)) HIGH s
      else digitalWrite (outPins ! (lsb ! b)) LOW s)"

definition setOutputPins :: "16 word \<Rightarrow> state \<Rightarrow> state" where
  "setOutputPins pinWord s = fold (setOutputPins_step pinWord) [0..<16] s"

subsection \<open>setup (lines 93-136)\<close>

text \<open>The function \<open>setup\<close> of the sketch is \<open>setup_sketch\<close> here.\<close>

definition setup_buttons_step :: "nat \<Rightarrow> state \<Rightarrow> state" where
  "setup_buttons_step ipin s =
     (let s = pinMode (buttonPins ! ipin) INPUT s;
          s = digitalWrite (buttonPins ! ipin) HIGH s;
          s = s\<lparr>buttonWord := bitWrite (buttonWord s) (lsb ! ipin) HIGH\<rparr>;
          s = pinMode (LEDPins ! ipin) OUTPUT s;
          s = digitalWrite (LEDPins ! ipin) LOW s;
          s = s\<lparr>LEDWord := bitWrite (LEDWord s) (lsb ! ipin) HIGH\<rparr>
      in s)"

definition setup_outputs_step :: "nat \<Rightarrow> state \<Rightarrow> state" where
  "setup_outputs_step ipin s =
     (let s = pinMode (outPins ! ipin) OUTPUT s;
          s = digitalWrite (outPins ! ipin) HIGH s;
          s = s\<lparr>pinsToSet := bitWrite (pinsToSet s) (lsb ! ipin) HIGH\<rparr>
      in s)"

definition setup_sketch :: "state \<Rightarrow> state" where
  "setup_sketch s =
     (let s = emit (SerialBegin 9600) s;
          s = emit (SerialPrint ''DSAM Control Program Version '') s;
          s = emit SerialPrintlnVersion s;
          s = fold setup_buttons_step [actionIdx..<16] s;
          s = fold setup_outputs_step [4..<16] s;
          s = delay 2000 s;
          s = emit (SerialPrintln ''End of setup'') s;
          s = emit (SerialPrintln ''Starting Mode is Load Loop A'') s;
          s = digitalWrite (LEDPins ! loadBit) HIGH s;
          s = digitalWrite (LEDPins ! loopABit) HIGH s;
          s = s\<lparr>buttonWord := buttonSetStartup\<rparr>;
          s = s\<lparr>LEDWord := buttonSetStartup\<rparr>;
          s = s\<lparr>pinsToSet := setPinsStartup\<rparr>;
          s = displayStates (buttonWord s) (pinsToSet s) s;
          s = setOutputPins (pinsToSet s) s
      in s)"

subsection \<open>loop (lines 138-288)\<close>

text \<open>Lines 155-159: the Standard indicator is turned off before any button is handled.\<close>

definition standardClear :: "state \<Rightarrow> state" where
  "standardClear s =
     (if bitRead (LEDWord s) (lsb ! standardBit) = 0 then
        (let s = digitalWrite (LEDPins ! standardBit) LOW s;
             s = s\<lparr>LEDWord := bitWrite (LEDWord s) (lsb ! standardBit) HIGH\<rparr>;
             s = s\<lparr>buttonWord := bitWrite (buttonWord s) (lsb ! standardBit) HIGH\<rparr>
         in s)
      else s)"

text \<open>Lines 171-176, 197-202 and 225-230: the body of the loops that switch the others off.\<close>

definition switchOff_step :: "nat \<Rightarrow> nat \<Rightarrow> state \<Rightarrow> state" where
  "switchOff_step pressed i s =
     (if i \<noteq> pressed then
        (let s = digitalWrite (LEDPins ! i) LOW s;
             s = s\<lparr>buttonWord := bitWrite (buttonWord s) (lsb ! i) HIGH\<rparr>;
             s = s\<lparr>LEDWord := bitWrite (LEDWord s) (lsb ! i) HIGH\<rparr>
         in s)
      else s)"

text \<open>Lines 166-168, 192-194 and 220-222: the pressed button's indicator and bits go on.\<close>

definition switchOn :: "nat \<Rightarrow> state \<Rightarrow> state" where
  "switchOn pressed s =
     (let s = digitalWrite (LEDPins ! pressed) HIGH s;
          s = s\<lparr>LEDWord := bitWrite (LEDWord s) (lsb ! pressed) LOW\<rparr>;
          s = s\<lparr>buttonWord := bitWrite (buttonWord s) (lsb ! pressed) LOW\<rparr>
      in s)"

text \<open>Lines 181-185 and 208-212: the scan of the single-step table.\<close>

definition lookup_step :: "nat \<Rightarrow> state \<Rightarrow> state" where
  "lookup_step i s =
     (if buttonWord s = buttonSetsOneStep ! i then s\<lparr>pinsToSet := setPinsOneStep ! i\<rparr> else s)"

definition lookupOneStep :: "state \<Rightarrow> state" where
  "lookupOneStep s = fold lookup_step [0..<12] s"

text \<open>Lines 181-188 and 208-215: look the plan up, show it, apply it, wait.\<close>

definition resolveAndApply :: "state \<Rightarrow> state" where
  "resolveAndApply s =
     (let s = lookupOneStep s;
          s = displayStates (buttonWord s) (pinsToSet s) s;
          s = setOutputPins (pinsToSet s) s;
          s = delay buttonBounceDelay s
      in s)"

text \<open>Lines 163-189: a button of the Action group.\<close>

definition actionPressed :: "nat \<Rightarrow> state \<Rightarrow> state" where
  "actionPressed ipin s =
     (let s = switchOn ipin s;
          s = fold (switchOff_step ipin) [actionIdx..<actionIdx + nActions] s;
          s = emit (SerialPrintln ''Pushed Action'') s;
          s = resolveAndApply s
      in s)"

text \<open>Lines 190-204: a button of the Mode group.\<close>

definition modePressed :: "nat \<Rightarrow> state \<Rightarrow> state" where
  "modePressed ipin s =
     (let s = switchOn ipin s;
          s = fold (switchOff_step ipin) [modeIdx..<modeIdx + nModes] s
      in s)"

text \<open>Lines 161-216: Action or Mode; the second look-up runs after either.\<close>

definition actionOrModePressed :: "nat \<Rightarrow> state \<Rightarrow> state" where
  "actionOrModePressed ipin s =
     (let s = (if actionIdx \<le> ipin \<and> ipin < actionIdx + nActions then actionPressed ipin s
               else if modeIdx \<le> ipin \<and> ipin < modeIdx + nModes then modePressed ipin s
               else s);
          s = emit (SerialPrintln ''Pushed Mode'') s;
          s = resolveAndApply s
      in s)"

text \<open>Lines 217-237: Standard.\<close>

definition standardPressed :: "state \<Rightarrow> state" where
  "standardPressed s =
     (let s = switchOn standardBit s;
          s = fold (switchOff_step standardBit) [0..<16] s;
          s = emit (SerialPrintln ''Pushed Standard'') s;
          s = displayStates (buttonWord s) setPinsStandard s;
          s = setOutputPins setPinsStandard s;
          s = delay buttonBounceDelay s
      in s)"

text \<open>Lines 247-266: the mode decision chain of the dilute branch; the result is \<open>i\<close>.\<close>

definition diluteMode :: "state \<Rightarrow> int \<times> state" where
  "diluteMode s =
     (if bitRead (buttonWord s) (lsb ! discreteBit) = 0
        then (0, emit (SerialPrintln ''for discrete'') s)
      else if bitRead (buttonWord s) (lsb ! septumBit) = 0
        then (1, emit (SerialPrintln ''for septum'') s)
      else if bitRead (buttonWord s) (lsb ! loopABit) = 0
        then (2, emit (SerialPrintln ''for loop A'') s)
      else if bitRead (buttonWord s) (lsb ! loopBBit) = 0
        then (3, emit (SerialPrintln ''for loop B'') s)
      else (- 1, emit (SerialPrintln ''???'') s))"

text \<open>Lines 267-278: the two phases of the dilute sequence.\<close>

definition diluteSequence :: "int \<Rightarrow> state \<Rightarrow> state" where
  "diluteSequence i s =
     (if 0 \<le> i then
        (let s = s\<lparr>pinsToSet := setPinsDilute1 ! nat i\<rparr>;
             s = displayStates (buttonWord s) (pinsToSet s) s;
             s = setOutputPins (pinsToSet s) s;
             s = delay diluteDelay s;
             s = emit (SerialPrintln ''now to analyze'') s;
             s = s\<lparr>pinsToSet := setPinsDilute2 ! nat i\<rparr>;
             s = displayStates (buttonWord s) (pinsToSet s) s;
             s = setOutputPins (pinsToSet s) s;
             s = delay buttonBounceDelay s;
             s = emit (SerialPrintln ''Finished dilute process sequence'') s
         in s)
      else s)"

text \<open>Lines 238-285: Dilute.\<close>

definition dilutePressed :: "state \<Rightarrow> state" where
  "dilutePressed s =
     (let s = digitalWrite (LEDPins ! diluteBit) HIGH s;
          s = (if bitRead (buttonWord s) (lsb ! analyzeBit) = 0 then
                 (let s = emit (SerialPrint ''In analyze mode, will commence dilution '') s;
                      (i, s) = diluteMode s
                  in diluteSequence i s)
               else
                 (let s = emit (SerialPrintln
                            ''dilute pressed when NOT in analyze mode, taking no action'') s;
                      s = s\<lparr>buttonState := sint (lastbuttonState s)\<rparr>;
                      s = delay buttonBounceDelay s
                  in s));
          s = digitalWrite (LEDPins ! diluteBit) LOW s
      in s)"

text \<open>Lines 161-285: the decision tree on the group of the pressed button.\<close>

definition groupHandling :: "nat \<Rightarrow> state \<Rightarrow> state" where
  "groupHandling ipin s =
     (if actionIdx \<le> ipin \<and> ipin < actionIdx + nActions + nModes then actionOrModePressed ipin s
      else if ipin = standardBit then standardPressed s
      else if ipin = diluteBit then dilutePressed s
      else s)"

text \<open>Lines 151-285: what happens once a button has read LOW.\<close>

definition buttonDetected :: "nat \<Rightarrow> state \<Rightarrow> state" where
  "buttonDetected ipin s =
     (let s = standardClear s;
          s = groupHandling ipin s
      in s)"

text \<open>
  Lines 146-286: one iteration of the scan, at position \<open>ipin\<close>; \<open>reading\<close> is what
  \<open>digitalRead(buttonPins[ipin])\<close> returns.
\<close>

definition scanButton :: "nat \<Rightarrow> int \<Rightarrow> state \<Rightarrow> state" where
  "scanButton ipin reading s =
     (let s = s\<lparr>buttonState := reading\<rparr>;
          s = s\<lparr>lastbuttonState := word_of_int (buttonState s)\<rparr>
      in if buttonState s = LOW then buttonDetected ipin s else s)"

text \<open>
  One pass of \<open>loop\<close>: positions 7 to 15 in ascending order; \<open>readings ipin\<close> is
  the level read when position \<open>ipin\<close> is scanned.
\<close>

definition loop :: "(nat \<Rightarrow> int) \<Rightarrow> state \<Rightarrow> state" where
  "loop readings s = fold (\<lambda>ipin. scanButton ipin (readings ipin)) [actionIdx..<16] s"

text \<open>The states the controller can be in between two scan iterations.\<close>

inductive reachable :: "state \<Rightarrow> bool" where
  after_setup: "reachable (setup_sketch initial_state)"
| after_scan: "reachable s \<Longrightarrow> actionIdx \<le> ipin \<Longrightarrow> ipin < 16 \<Longrightarrow>
     reachable (scanButton ipin reading s)"

subsection \<open>Notions of the specification\<close>

text \<open>
  A logical position is active in a mask when its bit is 0; position 0 is the most
  significant bit, so position \<open>p\<close> is physical bit \<open>15 - p\<close>.
\<close>

definition active :: "16 word \<Rightarrow> nat \<Rightarrow> bool" where
  "active w p = (\<not> bit w (15 - p))"

definition countActive :: "16 word \<Rightarrow> nat list \<Rightarrow> nat" where
  "countActive w ps = length (filter (active w) ps)"

text \<open>The events a run of \<open>f\<close> adds to the trace.\<close>

definition eventsOf :: "(state \<Rightarrow> state) \<Rightarrow> state \<Rightarrow> event list" where
  "eventsOf f s = drop (length (trace s)) (trace (f s))"

text \<open>The level last written to a pin, if any.\<close>

definition record_write :: "event \<Rightarrow> (int \<rightharpoonup> int) \<Rightarrow> (int \<rightharpoonup> int)" where
  "record_write e m = (case e of DigitalWrite pin v \<Rightarrow> m(pin \<mapsto> v) | _ \<Rightarrow> m)"

definition pinLevels :: "event list \<Rightarrow> (int \<rightharpoonup> int)" where
  "pinLevels evs = fold record_write evs Map.empty"

text \<open>
  The writes of the Output Driver as the specification describes them: position by
  position, skipping a position with no wired actuator, the inactive level HIGH for a
  plan bit 1 and the active level LOW for a plan bit 0. The driver visits physical bits
  0 to 15, that is positions 15 down to 0.
\<close>

definition applyActuation_spec :: "16 word \<Rightarrow> event list" where
  "applyActuation_spec plan =
     concat (map (\<lambda>p. if outPins ! p = 0 then []
                      else [DigitalWrite (outPins ! p) (if active plan p then LOW else HIGH)])
                 (rev [0..<16]))"

text \<open>What \<open>displayStates\<close> prints.\<close>

definition displayStates_events :: "16 word \<Rightarrow> 16 word \<Rightarrow> event list" where
  "displayStates_events inp outp =
     [SerialPrint ''input '', SerialPrintWord inp BIN, SerialPrint '' '',
      SerialPrintWord inp DEC, SerialPrint '' set pins '', SerialPrintWord outp BIN,
      SerialPrint '' '', SerialPrintlnWord outp DEC]"

text \<open>What \<open>setOutputPins\<close> writes: one write per physical bit, 0 to 15.\<close>

definition setOutputPins_events :: "16 word \<Rightarrow> event list" where
  "setOutputPins_events pinWord = eventsOf (setOutputPins pinWord) initial_state"

text \<open>The first active Mode position in the order Discrete, Septum, Loop A, Loop B.\<close>

definition modePriority :: "16 word \<Rightarrow> nat option" where
  "modePriority w =
     (case filter (\<lambda>k. active w (10 + k)) [0, 1, 2, 3] of [] \<Rightarrow> None | k # _ \<Rightarrow> Some k)"

text \<open>The write of one iteration of \<open>setOutputPins\<close>, at physical bit \<open>b\<close>.\<close>

definition driverWrite :: "16 word \<Rightarrow> nat \<Rightarrow> event" where
  "driverWrite pinWord b =
     DigitalWrite (outPins ! (lsb ! b))
       (if bit pinWord b \<and> outPins ! (lsb ! b) \<noteq> 0 then HIGH else LOW)"

text \<open>The levels last written to the wired actuator pins, position 4 to position 15.\<close>

definition actuatorLevels :: "event list \<Rightarrow> int option list" where
  "actuatorLevels evs = map (pinLevels evs) (filter (\<lambda>pin. pin \<noteq> 0) outPins)"

text \<open>
  The levels a plan asks of the wired actuators: LOW where the position is active in the
  plan, HIGH where it is not.
\<close>

definition planLevels :: "16 word \<Rightarrow> int option list" where
  "planLevels plan =
     map (\<lambda>p. Some (if active plan p then LOW else HIGH))
         (filter (\<lambda>p. outPins ! p \<noteq> 0) [0..<16])"

text \<open>A plan is applied in a run when the writes of the Output Driver on it occur there.\<close>

definition planApplied :: "16 word \<Rightarrow> event list \<Rightarrow> bool" where
  "planApplied plan evs = sublist (setOutputPins_events plan) evs"

definition dilutePlanApplied :: "event list \<Rightarrow> bool" where
  "dilutePlanApplied evs =
     (\<exists>plan \<in> set (setPinsDilute1 @ setPinsDilute2). planApplied plan evs)"

text \<open>
  The events of an accepted dilute press for the mode of index \<open>k\<close>: indicator on
  and phase 1, the settle delay, then phase 2, the bounce delay and indicator off.
\<close>

definition modeName :: "nat \<Rightarrow> string" where
  "modeName k = [''for discrete'', ''for septum'', ''for loop A'', ''for loop B''] ! k"

definition dilutePhase1Events :: "nat \<Rightarrow> 16 word \<Rightarrow> event list" where
  "dilutePhase1Events k bw =
     [DigitalWrite (LEDPins ! diluteBit) HIGH,
      SerialPrint ''In analyze mode, will commence dilution '',
      SerialPrintln (modeName k)]
     @ displayStates_events bw (setPinsDilute1 ! k)
     @ setOutputPins_events (setPinsDilute1 ! k)"

definition dilutePhase2Events :: "nat \<Rightarrow> 16 word \<Rightarrow> event list" where
  "dilutePhase2Events k bw =
     [SerialPrintln ''now to analyze'']
     @ displayStates_events bw (setPinsDilute2 ! k)
     @ setOutputPins_events (setPinsDilute2 ! k)
     @ [Delay buttonBounceDelay, SerialPrintln ''Finished dilute process sequence'',
        DigitalWrite (LEDPins ! diluteBit) LOW]"

definition diluteEvents :: "nat \<Rightarrow> 16 word \<Rightarrow> event list" where
  "diluteEvents k bw =
     dilutePhase1Events k bw @ [Delay diluteDelay] @ dilutePhase2Events k bw"

text \<open>The events of a dilute press that finds Analyze active and no Mode active.\<close>

definition diluteNoModeEvents :: "event list" where
  "diluteNoModeEvents =
     [DigitalWrite (LEDPins ! diluteBit) HIGH,
      SerialPrint ''In analyze mode, will commence dilution '',
      SerialPrintln ''???'',
      DigitalWrite (LEDPins ! diluteBit) LOW]"

text \<open>The events of a rejected dilute press.\<close>

definition diluteRejectedEvents :: "event list" where
  "diluteRejectedEvents =
     [DigitalWrite (LEDPins ! diluteBit) HIGH,
      SerialPrintln ''dilute pressed when NOT in analyze mode, taking no action'',
      Delay buttonBounceDelay,
      DigitalWrite (LEDPins ! diluteBit) LOW]"

text \<open>
  Three states used as concrete inputs: Standard pressed after \<open>setup\<close>; Analyze
  pressed after that (Analyze active, no Mode active); Analyze pressed right after
  \<open>setup\<close> (Analyze and Loop A active).
\<close>

definition standardState :: state where
  "standardState = scanButton standardBit LOW (setup_sketch initial_state)"

definition analyzeNoModeState :: state where
  "analyzeNoModeState = scanButton analyzeBit LOW standardState"

definition analyzeLoopAState :: state where
  "analyzeLoopAState = scanButton analyzeBit LOW (setup_sketch initial_state)"

text \<open>What the Standard-clear guard writes in state \<open>s\<close>.\<close>

definition guardEvents :: "state \<Rightarrow> event list" where
  "guardEvents s =
     (if active (LEDWord s) standardBit then [DigitalWrite (LEDPins ! standardBit) LOW] else [])"

text \<open>The effect of the table scan on the plan, as a function of the two words.\<close>

definition planFor :: "16 word \<Rightarrow> 16 word \<Rightarrow> 16 word" where
  "planFor bw plan =
     fold (\<lambda>i p. if bw = buttonSetsOneStep ! i then setPinsOneStep ! i else p) [0..<12] plan"

text \<open>The effect of the switch-off loops on a mask.\<close>

definition offOthers :: "nat \<Rightarrow> nat list \<Rightarrow> 16 word \<Rightarrow> 16 word" where
  "offOthers p xs w = fold (\<lambda>i w. if i \<noteq> p then bitSet w (lsb ! i) else w) xs w"

text \<open>At most one active position in the Action group and in the Mode group.\<close>

definition groupsExclusive :: "16 word \<Rightarrow> bool" where
  "groupsExclusive w =
     (countActive w [actionIdx..<actionIdx + nActions] \<le> 1
      \<and> countActive w [modeIdx..<modeIdx + nModes] \<le> 1)"

section \<open>Basic facts\<close>

lemma bitRead_zero_iff: "bitRead v b = 0 \<longleftrightarrow> \<not> bit v b"
  by (simp add: bitRead_def and_one_eq mod2_eq_if bit_iff_odd_drop_bit)

lemma bit_bitSet: "bit (bitSet v b) n \<longleftrightarrow> bit v n \<or> (n = b \<and> n < 16)"
  by (auto simp add: bitSet_def bit_simps)

lemma bit_bitClear: "bit (bitClear v b) n \<longleftrightarrow> bit v n \<and> n \<noteq> b"
  by (auto simp add: bitClear_def bit_simps dest: bit_imp_le_length)

lemma emit_fields [simp]:
  "buttonWord (emit e s) = buttonWord s"
  "LEDWord (emit e s) = LEDWord s"
  "pinsToSet (emit e s) = pinsToSet s"
  "lastbuttonState (emit e s) = lastbuttonState s"
  "buttonState (emit e s) = buttonState s"
  "trace (emit e s) = trace s @ [e]"
  by (simp_all add: emit_def)

lemma fold_emit:
  "fold (\<lambda>b. emit (f b)) xs s = s\<lparr>trace := trace s @ map f xs\<rparr>"
  by (induction xs arbitrary: s) (simp_all add: emit_def)

lemma setOutputPins_step_emit:
  "setOutputPins_step pinWord b = emit (driverWrite pinWord b)"
  by (rule ext) (simp add: setOutputPins_step_def driverWrite_def digitalWrite_def bitRead_zero_iff)

lemma setOutputPins_eq:
  "setOutputPins pinWord s = s\<lparr>trace := trace s @ map (driverWrite pinWord) [0..<16]\<rparr>"
  unfolding setOutputPins_def setOutputPins_step_emit by (rule fold_emit)

lemma setOutputPins_events_eq:
  "setOutputPins_events pinWord = map (driverWrite pinWord) [0..<16]"
  by (simp add: setOutputPins_events_def eventsOf_def setOutputPins_eq)

lemma setOutputPins_trace:
  "setOutputPins pinWord s = s\<lparr>trace := trace s @ setOutputPins_events pinWord\<rparr>"
  by (simp only: setOutputPins_eq setOutputPins_events_eq)

lemma displayStates_eq:
  "displayStates a b s = s\<lparr>trace := trace s @ displayStates_events a b\<rparr>"
  by (simp add: displayStates_def displayStates_events_def emit_def)

lemma if_neg: "(if \<not> P then x else y) = (if P then y else x)"
  by simp

lemma upt_0_16: "[0..<16] = [0, 1, 2, 3, 4, 5, 6, 7, 8, 9, 10, 11, 12, 13, 14, 15]"
  by code_simp

lemma setOutputPins_events_explicit:
  "setOutputPins_events plan =
     [DigitalWrite 40 (if bit plan 0 then HIGH else LOW),
      DigitalWrite 41 (if bit plan 1 then HIGH else LOW),
      DigitalWrite 42 (if bit plan 2 then HIGH else LOW),
      DigitalWrite 43 (if bit plan 3 then HIGH else LOW),
      DigitalWrite 44 (if bit plan 4 then HIGH else LOW),
      DigitalWrite 45 (if bit plan 5 then HIGH else LOW),
      DigitalWrite 46 (if bit plan 6 then HIGH else LOW),
      DigitalWrite 47 (if bit plan 7 then HIGH else LOW),
      DigitalWrite 48 (if bit plan 8 then HIGH else LOW),
      DigitalWrite 49 (if bit plan 9 then HIGH else LOW),
      DigitalWrite 50 (if bit plan 10 then HIGH else LOW),
      DigitalWrite 51 (if bit plan 11 then HIGH else LOW),
      DigitalWrite 0 LOW, DigitalWrite 0 LOW, DigitalWrite 0 LOW, DigitalWrite 0 LOW]"
  by (simp add: setOutputPins_events_eq driverWrite_def outPins_def lsb_def upt_0_16
        split del: if_split cong: if_cong)

lemma applyActuation_spec_explicit:
  "applyActuation_spec plan =
     [DigitalWrite 40 (if bit plan 0 then HIGH else LOW),
      DigitalWrite 41 (if bit plan 1 then HIGH else LOW),
      DigitalWrite 42 (if bit plan 2 then HIGH else LOW),
      DigitalWrite 43 (if bit plan 3 then HIGH else LOW),
      DigitalWrite 44 (if bit plan 4 then HIGH else LOW),
      DigitalWrite 45 (if bit plan 5 then HIGH else LOW),
      DigitalWrite 46 (if bit plan 6 then HIGH else LOW),
      DigitalWrite 47 (if bit plan 7 then HIGH else LOW),
      DigitalWrite 48 (if bit plan 8 then HIGH else LOW),
      DigitalWrite 49 (if bit plan 9 then HIGH else LOW),
      DigitalWrite 50 (if bit plan 10 then HIGH else LOW),
      DigitalWrite 51 (if bit plan 11 then HIGH else LOW)]"
  by (simp add: applyActuation_spec_def active_def outPins_def upt_0_16 if_neg
        split del: if_split cong: if_cong)

lemma eventsOf_append:
  "trace (f s) = trace s @ evs \<Longrightarrow> eventsOf f s = evs"
  by (simp add: eventsOf_def)

lemma eventsOf_setOutputPins: "eventsOf (setOutputPins p) s = setOutputPins_events p"
  by (simp add: eventsOf_def setOutputPins_trace)

lemma setOutputPins_general:
  "eventsOf (setOutputPins plan) s =
     applyActuation_spec plan @ replicate 4 (DigitalWrite 0 LOW)"
  by (simp add: eventsOf_setOutputPins setOutputPins_events_explicit
        applyActuation_spec_explicit numeral_eq_Suc split del: if_split cong: if_cong)

lemma pinLevels_append: "pinLevels (xs @ ys) = fold record_write ys (pinLevels xs)"
  by (simp add: pinLevels_def)

lemma record_write_simps [simp]:
  "record_write (DigitalWrite pin v) m = m(pin \<mapsto> v)"
  "record_write (PinMode pin v) m = m"
  "record_write (Delay d) m = m"
  "record_write (SerialBegin d) m = m"
  "record_write (SerialPrint str) m = m"
  "record_write (SerialPrintln str) m = m"
  "record_write SerialPrintlnVersion m = m"
  "record_write (SerialPrintWord w d) m = m"
  "record_write (SerialPrintlnWord w d) m = m"
  by (simp_all add: record_write_def)

lemma setup_words:
  "buttonWord (setup_sketch s) = buttonSetStartup"
  "LEDWord (setup_sketch s) = buttonSetStartup"
  "pinsToSet (setup_sketch s) = setPinsStartup"
  by (simp_all add: setup_sketch_def Let_def setOutputPins_trace displayStates_eq)

lemma setup_trace_tail:
  "\<exists>pre. trace (setup_sketch s) =
     pre @ [DigitalWrite 35 HIGH, DigitalWrite 31 HIGH]
         @ displayStates_events buttonSetStartup setPinsStartup
         @ setOutputPins_events setPinsStartup"
  by (simp add: setup_sketch_def Let_def setOutputPins_trace displayStates_eq digitalWrite_def
        delay_def LEDPins_def loadBit_def loopABit_def)

lemma lookup_step_fields [simp]:
  "buttonWord (lookup_step k s) = buttonWord s"
  "LEDWord (lookup_step k s) = LEDWord s"
  "trace (lookup_step k s) = trace s"
  by (simp_all add: lookup_step_def)

lemma fold_lookup_step_fields [simp]:
  "buttonWord (fold lookup_step ks s) = buttonWord s"
  "LEDWord (fold lookup_step ks s) = LEDWord s"
  "trace (fold lookup_step ks s) = trace s"
  by (induction ks arbitrary: s) simp_all

lemma distinct_buttonSetsOneStep: "distinct buttonSetsOneStep"
  by (simp add: buttonSetsOneStep_def)

lemma length_buttonSetsOneStep: "length buttonSetsOneStep = 12"
  by (simp add: buttonSetsOneStep_def)

lemma fold_lookup_unmatched:
  "\<forall>k \<in> set ks. buttonWord s \<noteq> buttonSetsOneStep ! k \<Longrightarrow> fold lookup_step ks s = s"
  by (induction ks arbitrary: s) (simp_all add: lookup_step_def)

lemma fold_lookup_matched:
  "buttonWord s = buttonSetsOneStep ! k \<Longrightarrow> k < 12 \<Longrightarrow> \<forall>j \<in> set ks. j < 12 \<Longrightarrow>
   pinsToSet (fold lookup_step ks s) = (if k \<in> set ks then setPinsOneStep ! k else pinsToSet s)"
proof (induction ks arbitrary: s)
  case Nil
  then show ?case by simp
next
  case (Cons j ks)
  show ?case
  proof (cases "j = k")
    case True
    have "pinsToSet (fold lookup_step ks (lookup_step k s)) =
            (if k \<in> set ks then setPinsOneStep ! k else pinsToSet (lookup_step k s))"
      using Cons.prems by (intro Cons.IH) simp_all
    moreover have "pinsToSet (lookup_step k s) = setPinsOneStep ! k"
      using Cons.prems(1) by (simp add: lookup_step_def)
    ultimately show ?thesis using True by simp
  next
    case False
    have "j < 12" using Cons.prems(3) by simp
    then have "buttonSetsOneStep ! j \<noteq> buttonSetsOneStep ! k"
      using False Cons.prems(2) distinct_buttonSetsOneStep
      by (simp add: nth_eq_iff_index_eq length_buttonSetsOneStep)
    then have "lookup_step j s = s"
      using Cons.prems(1) by (simp add: lookup_step_def)
    then show ?thesis using Cons False by simp
  qed
qed

subsection \<open>The masks after each handler\<close>

lemma digitalWrite_fields [simp]:
  "buttonWord (digitalWrite p v s) = buttonWord s"
  "LEDWord (digitalWrite p v s) = LEDWord s"
  "pinsToSet (digitalWrite p v s) = pinsToSet s"
  "trace (digitalWrite p v s) = trace s @ [DigitalWrite p v]"
  by (simp_all add: digitalWrite_def)

lemma delay_fields [simp]:
  "buttonWord (delay d s) = buttonWord s"
  "LEDWord (delay d s) = LEDWord s"
  "pinsToSet (delay d s) = pinsToSet s"
  "trace (delay d s) = trace s @ [Delay d]"
  by (simp_all add: delay_def)

lemma displayStates_fields [simp]:
  "buttonWord (displayStates a b s) = buttonWord s"
  "LEDWord (displayStates a b s) = LEDWord s"
  "pinsToSet (displayStates a b s) = pinsToSet s"
  "trace (displayStates a b s) = trace s @ displayStates_events a b"
  by (simp_all add: displayStates_eq)

lemma setOutputPins_fields [simp]:
  "buttonWord (setOutputPins p s) = buttonWord s"
  "LEDWord (setOutputPins p s) = LEDWord s"
  "pinsToSet (setOutputPins p s) = pinsToSet s"
  "trace (setOutputPins p s) = trace s @ setOutputPins_events p"
  by (simp_all add: setOutputPins_trace)

lemma lookupOneStep_fields [simp]:
  "buttonWord (lookupOneStep s) = buttonWord s"
  "LEDWord (lookupOneStep s) = LEDWord s"
  "trace (lookupOneStep s) = trace s"
  by (simp_all add: lookupOneStep_def)

lemma resolveAndApply_fields [simp]:
  "buttonWord (resolveAndApply s) = buttonWord s"
  "LEDWord (resolveAndApply s) = LEDWord s"
  "pinsToSet (resolveAndApply s) = pinsToSet (lookupOneStep s)"
  "trace (resolveAndApply s) =
     trace s @ displayStates_events (buttonWord s) (pinsToSet (lookupOneStep s))
       @ setOutputPins_events (pinsToSet (lookupOneStep s)) @ [Delay buttonBounceDelay]"
  by (simp_all add: resolveAndApply_def Let_def)

lemma standardClear_fields:
  "buttonWord (standardClear s) =
     (if bit (LEDWord s) 0 then buttonWord s else bitSet (buttonWord s) 0)"
  "LEDWord (standardClear s) = (if bit (LEDWord s) 0 then LEDWord s else bitSet (LEDWord s) 0)"
  "pinsToSet (standardClear s) = pinsToSet s"
  "trace (standardClear s) =
     trace s @ (if bit (LEDWord s) 0 then [] else [DigitalWrite 52 LOW])"
  by (simp_all add: standardClear_def Let_def bitRead_zero_iff bitWrite_def HIGH_def lsb_def
        standardBit_def LEDPins_def)

lemma switchOn_fields [simp]:
  "buttonWord (switchOn p s) = bitClear (buttonWord s) (lsb ! p)"
  "LEDWord (switchOn p s) = bitClear (LEDWord s) (lsb ! p)"
  "pinsToSet (switchOn p s) = pinsToSet s"
  "trace (switchOn p s) = trace s @ [DigitalWrite (LEDPins ! p) HIGH]"
  by (simp_all add: switchOn_def Let_def bitWrite_def LOW_def)

lemma fold_switchOff_fields [simp]:
  "buttonWord (fold (switchOff_step p) xs s) = offOthers p xs (buttonWord s)"
  "LEDWord (fold (switchOff_step p) xs s) = offOthers p xs (LEDWord s)"
  "pinsToSet (fold (switchOff_step p) xs s) = pinsToSet s"
  "trace (fold (switchOff_step p) xs s) =
     trace s @ map (\<lambda>i. DigitalWrite (LEDPins ! i) LOW) (filter (\<lambda>i. i \<noteq> p) xs)"
  by (induction xs arbitrary: s)
     (simp_all add: offOthers_def switchOff_step_def Let_def bitWrite_def HIGH_def)

lemma switchOff_step_fields [simp]:
  "buttonWord (switchOff_step p i s) =
     (if i \<noteq> p then bitSet (buttonWord s) (lsb ! i) else buttonWord s)"
  "LEDWord (switchOff_step p i s) = (if i \<noteq> p then bitSet (LEDWord s) (lsb ! i) else LEDWord s)"
  "pinsToSet (switchOff_step p i s) = pinsToSet s"
  by (simp_all add: switchOff_step_def Let_def bitWrite_def HIGH_def)

lemma actionPressed_fields [simp]:
  "buttonWord (actionPressed p s) = offOthers p [7, 8, 9] (bitClear (buttonWord s) (lsb ! p))"
  "LEDWord (actionPressed p s) = offOthers p [7, 8, 9] (bitClear (LEDWord s) (lsb ! p))"
  by (simp_all add: actionPressed_def Let_def actionIdx_def nActions_def offOthers_def)

lemma modePressed_fields [simp]:
  "buttonWord (modePressed p s) =
     offOthers p [10, 11, 12, 13] (bitClear (buttonWord s) (lsb ! p))"
  "LEDWord (modePressed p s) = offOthers p [10, 11, 12, 13] (bitClear (LEDWord s) (lsb ! p))"
  "pinsToSet (modePressed p s) = pinsToSet s"
  by (simp_all add: modePressed_def Let_def modeIdx_def nModes_def offOthers_def)

lemma actionOrModePressed_fields:
  "buttonWord (actionOrModePressed p s) =
     (if 7 \<le> p \<and> p < 10 then offOthers p [7, 8, 9] (bitClear (buttonWord s) (lsb ! p))
      else if 10 \<le> p \<and> p < 14
        then offOthers p [10, 11, 12, 13] (bitClear (buttonWord s) (lsb ! p))
      else buttonWord s)"
  "LEDWord (actionOrModePressed p s) =
     (if 7 \<le> p \<and> p < 10 then offOthers p [7, 8, 9] (bitClear (LEDWord s) (lsb ! p))
      else if 10 \<le> p \<and> p < 14
        then offOthers p [10, 11, 12, 13] (bitClear (LEDWord s) (lsb ! p))
      else LEDWord s)"
  by (simp_all add: actionOrModePressed_def Let_def actionIdx_def nActions_def modeIdx_def
        nModes_def)

lemma standardPressed_fields:
  "buttonWord (standardPressed s) = offOthers 15 [0..<16] (bitClear (buttonWord s) 0)"
  "LEDWord (standardPressed s) = offOthers 15 [0..<16] (bitClear (LEDWord s) 0)"
  "pinsToSet (standardPressed s) = pinsToSet s"
  by (simp_all add: standardPressed_def Let_def standardBit_def lsb_def)

lemma diluteMode_fields [simp]:
  "buttonWord (snd (diluteMode s)) = buttonWord s"
  "LEDWord (snd (diluteMode s)) = LEDWord s"
  "pinsToSet (snd (diluteMode s)) = pinsToSet s"
  by (simp_all add: diluteMode_def)

lemma diluteSequence_fields [simp]:
  "buttonWord (diluteSequence i s) = buttonWord s"
  "LEDWord (diluteSequence i s) = LEDWord s"
  "pinsToSet (diluteSequence i s) = (if 0 \<le> i then setPinsDilute2 ! nat i else pinsToSet s)"
  by (simp_all add: diluteSequence_def Let_def)

lemma dilutePressed_fields:
  "buttonWord (dilutePressed s) = buttonWord s"
  "LEDWord (dilutePressed s) = LEDWord s"
  by (simp_all add: dilutePressed_def Let_def split_def)

lemma groupHandling_words:
  "buttonWord (groupHandling p s) =
     (if 7 \<le> p \<and> p < 10 then offOthers p [7, 8, 9] (bitClear (buttonWord s) (lsb ! p))
      else if 10 \<le> p \<and> p < 14
        then offOthers p [10, 11, 12, 13] (bitClear (buttonWord s) (lsb ! p))
      else if p = 15 then offOthers 15 [0..<16] (bitClear (buttonWord s) 0)
      else buttonWord s)"
  "LEDWord (groupHandling p s) =
     (if 7 \<le> p \<and> p < 10 then offOthers p [7, 8, 9] (bitClear (LEDWord s) (lsb ! p))
      else if 10 \<le> p \<and> p < 14
        then offOthers p [10, 11, 12, 13] (bitClear (LEDWord s) (lsb ! p))
      else if p = 15 then offOthers 15 [0..<16] (bitClear (LEDWord s) 0)
      else LEDWord s)"
  by (auto simp add: groupHandling_def actionOrModePressed_fields standardPressed_fields
        dilutePressed_fields actionIdx_def nActions_def nModes_def standardBit_def
        diluteBit_def)

lemma scanButton_unfold:
  "scanButton p r s =
     (if r = LOW
      then groupHandling p (standardClear (s\<lparr>buttonState := r, lastbuttonState := word_of_int r\<rparr>))
      else s\<lparr>buttonState := r, lastbuttonState := word_of_int r\<rparr>)"
  by (simp add: scanButton_def buttonDetected_def Let_def)

subsection \<open>Invariants of the scan\<close>

lemma nine_positions:
  "7 \<le> p \<Longrightarrow> p < 16 \<Longrightarrow>
     p = 7 \<or> p = 8 \<or> p = 9 \<or> p = 10 \<or> p = 11 \<or> p = 12 \<or> p = 13 \<or> p = 14 \<or> p = (15::nat)"
  by arith

lemma countActive_action:
  "countActive w [7, 8, 9] \<le> 1 \<longleftrightarrow>
     (bit w 8 \<or> bit w 7) \<and> (bit w 8 \<or> bit w 6) \<and> (bit w 7 \<or> bit w 6)"
  by (auto simp add: countActive_def active_def)

lemma countActive_mode:
  "countActive w [10, 11, 12, 13] \<le> 1 \<longleftrightarrow>
     (bit w 5 \<or> bit w 4) \<and> (bit w 5 \<or> bit w 3) \<and> (bit w 5 \<or> bit w 2)
     \<and> (bit w 4 \<or> bit w 3) \<and> (bit w 4 \<or> bit w 2) \<and> (bit w 3 \<or> bit w 2)"
  by (auto simp add: countActive_def active_def)

lemma groupsExclusive_bits:
  "groupsExclusive w \<longleftrightarrow>
     (bit w 8 \<or> bit w 7) \<and> (bit w 8 \<or> bit w 6) \<and> (bit w 7 \<or> bit w 6)
     \<and> (bit w 5 \<or> bit w 4) \<and> (bit w 5 \<or> bit w 3) \<and> (bit w 5 \<or> bit w 2)
     \<and> (bit w 4 \<or> bit w 3) \<and> (bit w 4 \<or> bit w 2) \<and> (bit w 3 \<or> bit w 2)"
  using countActive_action [of w] countActive_mode [of w]
  by (simp add: groupsExclusive_def actionIdx_def nActions_def modeIdx_def nModes_def)

lemma standardClear_groups:
  "groupsExclusive (buttonWord (standardClear s)) = groupsExclusive (buttonWord s)"
  by (simp add: standardClear_fields groupsExclusive_bits bit_bitSet)

lemma groupHandling_groups:
  assumes "groupsExclusive (buttonWord s)" "7 \<le> p" "p < 16"
  shows "groupsExclusive (buttonWord (groupHandling p s))"
proof -
  from nine_positions [OF assms(2,3)]
  consider "p = 7" | "p = 8" | "p = 9" | "p = 10" | "p = 11" | "p = 12" | "p = 13"
    | "p = 14" | "p = 15" by blast
  then show ?thesis
  proof cases
    case 1 then show ?thesis using assms(1)
      by (simp add: groupHandling_words groupsExclusive_bits offOthers_def lsb_def
            bit_bitSet bit_bitClear)
  next
    case 2 then show ?thesis using assms(1)
      by (simp add: groupHandling_words groupsExclusive_bits offOthers_def lsb_def
            bit_bitSet bit_bitClear)
  next
    case 3 then show ?thesis using assms(1)
      by (simp add: groupHandling_words groupsExclusive_bits offOthers_def lsb_def
            bit_bitSet bit_bitClear)
  next
    case 4 then show ?thesis using assms(1)
      by (simp add: groupHandling_words groupsExclusive_bits offOthers_def lsb_def
            bit_bitSet bit_bitClear)
  next
    case 5 then show ?thesis using assms(1)
      by (simp add: groupHandling_words groupsExclusive_bits offOthers_def lsb_def
            bit_bitSet bit_bitClear)
  next
    case 6 then show ?thesis using assms(1)
      by (simp add: groupHandling_words groupsExclusive_bits offOthers_def lsb_def
            bit_bitSet bit_bitClear)
  next
    case 7 then show ?thesis using assms(1)
      by (simp add: groupHandling_words groupsExclusive_bits offOthers_def lsb_def
            bit_bitSet bit_bitClear)
  next
    case 8 then show ?thesis using assms(1)
      by (simp add: groupHandling_words)
  next
    case 9 then show ?thesis
      by (simp add: groupHandling_words groupsExclusive_bits offOthers_def lsb_def upt_0_16
            bit_bitSet bit_bitClear)
  qed
qed

lemma scanButton_groups:
  assumes "groupsExclusive (buttonWord s)" "7 \<le> p" "p < 16"
  shows "groupsExclusive (buttonWord (scanButton p r s))"
proof (cases "r = LOW")
  case True
  let ?g = "standardClear (s\<lparr>buttonState := r, lastbuttonState := word_of_int r\<rparr>)"
  have "groupsExclusive (buttonWord ?g)"
    using assms(1) by (simp add: standardClear_groups)
  then have "groupsExclusive (buttonWord (groupHandling p ?g))"
    using assms(2,3) by (rule groupHandling_groups)
  then show ?thesis using True by (simp add: scanButton_unfold)
next
  case False
  then show ?thesis using assms(1) by (simp add: scanButton_unfold)
qed

lemma reachable_groups: "reachable s \<Longrightarrow> groupsExclusive (buttonWord s)"
proof (induction rule: reachable.induct)
  case after_setup
  show ?case
    by (simp add: setup_words buttonSetStartup_def groupsExclusive_bits)
next
  case (after_scan s ipin reading)
  then show ?case by (simp add: scanButton_groups actionIdx_def)
qed

lemma standard_only:
  "filter (active (buttonWord (scanButton standardBit LOW s))) [0..<16] = [standardBit]"
  by (simp add: scanButton_unfold groupHandling_words standardBit_def offOthers_def lsb_def
        upt_0_16 active_def bit_bitSet bit_bitClear)

lemma mirror_standardClear:
  "LEDWord s = buttonWord s \<Longrightarrow> LEDWord (standardClear s) = buttonWord (standardClear s)"
  by (simp add: standardClear_fields)

lemma mirror_groupHandling:
  "LEDWord s = buttonWord s \<Longrightarrow> LEDWord (groupHandling p s) = buttonWord (groupHandling p s)"
  by (simp add: groupHandling_words)

lemma mirror_scanButton:
  "LEDWord s = buttonWord s \<Longrightarrow> LEDWord (scanButton p r s) = buttonWord (scanButton p r s)"
  by (simp add: scanButton_unfold mirror_groupHandling mirror_standardClear)

lemma reachable_mirror: "reachable s \<Longrightarrow> LEDWord s = buttonWord s"
  by (induction rule: reachable.induct) (simp_all add: setup_words mirror_scanButton)

lemma reachable_one_press:
  "7 \<le> p \<Longrightarrow> p < 16 \<Longrightarrow> reachable (scanButton p r (setup_sketch initial_state))"
  by (rule reachable.after_scan [OF reachable.after_setup]) (simp_all add: actionIdx_def)

text \<open>A whole pass of \<open>loop\<close> stays within the reachable states.\<close>

lemma reachable_fold_scan:
  "reachable s \<Longrightarrow> \<forall>p \<in> set ps. actionIdx \<le> p \<and> p < 16 \<Longrightarrow>
     reachable (fold (\<lambda>ipin. scanButton ipin (readings ipin)) ps s)"
proof (induction ps arbitrary: s)
  case Nil
  then show ?case by simp
next
  case (Cons p ps)
  then have "reachable (scanButton p (readings p) s)"
    by (intro reachable.after_scan) simp_all
  then show ?case using Cons by simp
qed

lemma reachable_loop: "reachable s \<Longrightarrow> reachable (loop readings s)"
  unfolding loop_def by (rule reachable_fold_scan) simp_all

subsection \<open>The dilute branch\<close>

lemma modePriority_bits:
  "modePriority w =
     (if \<not> bit w 5 then Some 0 else if \<not> bit w 4 then Some 1
      else if \<not> bit w 3 then Some 2 else if \<not> bit w 2 then Some 3 else None)"
  by (simp add: modePriority_def active_def)

lemma diluteMode_priority:
  "diluteMode s =
     (case modePriority (buttonWord s) of
        Some k \<Rightarrow> (int k, emit (SerialPrintln (modeName k)) s)
      | None \<Rightarrow> (- 1, emit (SerialPrintln ''???'') s))"
  by (simp add: diluteMode_def modePriority_bits bitRead_zero_iff lsb_def discreteBit_def
        septumBit_def loopABit_def loopBBit_def modeName_def)

lemma modePriority_less: "modePriority w = Some k \<Longrightarrow> k < 4"
  by (simp add: modePriority_bits split: if_splits)

lemma dilutePressed_accepted:
  assumes "\<not> bit (buttonWord s) 6" "modePriority (buttonWord s) = Some k"
  shows "dilutePressed s =
     s\<lparr>pinsToSet := setPinsDilute2 ! k, trace := trace s @ diluteEvents k (buttonWord s)\<rparr>"
  using assms
  by (simp add: dilutePressed_def Let_def diluteMode_priority diluteSequence_def
        bitRead_zero_iff lsb_def analyzeBit_def diluteEvents_def dilutePhase1Events_def dilutePhase2Events_def displayStates_eq
        setOutputPins_trace digitalWrite_def delay_def emit_def)

lemma dilutePressed_no_mode:
  assumes "\<not> bit (buttonWord s) 6" "modePriority (buttonWord s) = None"
  shows "dilutePressed s = s\<lparr>trace := trace s @ diluteNoModeEvents\<rparr>"
  using assms
  by (simp add: dilutePressed_def Let_def diluteMode_priority diluteSequence_def
        bitRead_zero_iff lsb_def analyzeBit_def diluteNoModeEvents_def
        digitalWrite_def delay_def emit_def)

lemma dilutePressed_rejected:
  assumes "bit (buttonWord s) 6"
  shows "dilutePressed s =
     s\<lparr>buttonState := sint (lastbuttonState s), trace := trace s @ diluteRejectedEvents\<rparr>"
  using assms
  by (simp add: dilutePressed_def Let_def bitRead_zero_iff lsb_def analyzeBit_def
        diluteRejectedEvents_def digitalWrite_def delay_def emit_def)

lemma scanButton_dilute:
  "scanButton diluteBit LOW s =
     dilutePressed (standardClear (s\<lparr>buttonState := LOW, lastbuttonState := 0\<rparr>))"
  by (simp add: scanButton_unfold groupHandling_def diluteBit_def actionIdx_def nActions_def
        nModes_def standardBit_def LOW_def)

lemma standardClear_keeps_bit:
  "n \<noteq> 0 \<Longrightarrow> bit (buttonWord (standardClear s)) n = bit (buttonWord s) n"
  by (simp add: standardClear_fields bit_bitSet)

lemma standardClear_modePriority:
  "modePriority (buttonWord (standardClear s)) = modePriority (buttonWord s)"
  by (simp add: modePriority_bits standardClear_keeps_bit)

lemma length_setOutputPins_events: "length (setOutputPins_events p) = 16"
  by (simp add: setOutputPins_events_eq)

lemma planApplied_length: "planApplied p evs \<Longrightarrow> 16 \<le> length evs"
  using sublist_length_le [of "setOutputPins_events p" evs]
  by (simp add: planApplied_def length_setOutputPins_events)

lemma dilutePlanApplied_length: "dilutePlanApplied evs \<Longrightarrow> 16 \<le> length evs"
  by (auto simp add: dilutePlanApplied_def dest: planApplied_length)

lemma planApplied_diluteEvents:
  "planApplied (setPinsDilute1 ! k) (pre @ diluteEvents k bw)"
proof -
  have "pre @ diluteEvents k bw =
      (pre @ [DigitalWrite (LEDPins ! diluteBit) HIGH,
        SerialPrint ''In analyze mode, will commence dilution '',
        SerialPrintln (modeName k)] @ displayStates_events bw (setPinsDilute1 ! k))
      @ setOutputPins_events (setPinsDilute1 ! k)
      @ ([Delay diluteDelay, SerialPrintln ''now to analyze'']
         @ displayStates_events bw (setPinsDilute2 ! k)
         @ setOutputPins_events (setPinsDilute2 ! k)
         @ [Delay buttonBounceDelay, SerialPrintln ''Finished dilute process sequence'',
            DigitalWrite (LEDPins ! diluteBit) LOW])"
    by (simp add: diluteEvents_def dilutePhase1Events_def dilutePhase2Events_def)
  then show ?thesis
    unfolding planApplied_def sublist_def by blast
qed

lemma dilutePlanApplied_diluteEvents:
  "k < 4 \<Longrightarrow> dilutePlanApplied (pre @ diluteEvents k bw)"
proof -
  assume "k < 4"
  moreover have "length setPinsDilute1 = 4" by (simp add: setPinsDilute1_def)
  ultimately have "setPinsDilute1 ! k \<in> set setPinsDilute1"
    by (simp only: nth_mem)
  then have "setPinsDilute1 ! k \<in> set (setPinsDilute1 @ setPinsDilute2)"
    by simp
  then show ?thesis
    unfolding dilutePlanApplied_def using planApplied_diluteEvents by blast
qed

lemma guardEvents_bits:
  "guardEvents s = (if bit (LEDWord s) 0 then [] else [DigitalWrite 52 LOW])"
  by (simp add: guardEvents_def active_def standardBit_def LEDPins_def)

lemma standardClear_eq:
  "standardClear s =
     (if active (LEDWord s) standardBit
      then s\<lparr>buttonWord := bitWrite (buttonWord s) (lsb ! standardBit) HIGH,
             LEDWord := bitWrite (LEDWord s) (lsb ! standardBit) HIGH,
             trace := trace s @ guardEvents s\<rparr>
      else s)"
  by (simp add: standardClear_def Let_def bitRead_zero_iff active_def standardBit_def lsb_def
        guardEvents_def digitalWrite_def emit_def)

lemma trace_guard:
  "trace (standardClear (s\<lparr>buttonState := a, lastbuttonState := b\<rparr>)) = trace s @ guardEvents s"
  by (simp add: standardClear_fields guardEvents_bits)

lemma eventsOf_dilute:
  "eventsOf (scanButton diluteBit LOW) s =
     guardEvents s @
     (if active (buttonWord s) analyzeBit then
        (case modePriority (buttonWord s) of
           Some k \<Rightarrow>
             diluteEvents k (buttonWord (standardClear (s\<lparr>buttonState := LOW, lastbuttonState := 0\<rparr>)))
         | None \<Rightarrow> diluteNoModeEvents)
      else diluteRejectedEvents)"
proof -
  let ?g = "standardClear (s\<lparr>buttonState := LOW, lastbuttonState := 0\<rparr>)"
  have tg: "trace ?g = trace s @ guardEvents s" by (rule trace_guard)
  have an: "bit (buttonWord ?g) 6 = bit (buttonWord s) 6"
    by (simp add: standardClear_keeps_bit)
  have mp: "modePriority (buttonWord ?g) = modePriority (buttonWord s)"
    by (simp add: standardClear_modePriority)
  show ?thesis
  proof (cases "active (buttonWord s) analyzeBit")
    case False
    then have "bit (buttonWord ?g) 6" using an by (simp add: active_def analyzeBit_def)
    from dilutePressed_rejected [OF this] False tg show ?thesis
      by (simp add: eventsOf_def scanButton_dilute)
  next
    case True
    then have a: "\<not> bit (buttonWord ?g) 6" using an by (simp add: active_def analyzeBit_def)
    show ?thesis
    proof (cases "modePriority (buttonWord s)")
      case None
      with dilutePressed_no_mode [OF a] mp True tg show ?thesis
        by (simp add: eventsOf_def scanButton_dilute)
    next
      case (Some k)
      with dilutePressed_accepted [OF a, of k] mp True tg show ?thesis
        by (simp add: eventsOf_def scanButton_dilute)
    qed
  qed
qed

lemma length_guardEvents: "length (guardEvents s) \<le> 1"
  by (simp add: guardEvents_def)

lemma dilute_applied_iff:
  "dilutePlanApplied (eventsOf (scanButton diluteBit LOW) s) \<longleftrightarrow>
     active (buttonWord s) analyzeBit \<and> modePriority (buttonWord s) \<noteq> None"
proof (cases "active (buttonWord s) analyzeBit")
  case False
  have "length (eventsOf (scanButton diluteBit LOW) s) \<le> 5"
    using False length_guardEvents [of s]
    by (simp add: eventsOf_dilute diluteRejectedEvents_def)
  then have "\<not> dilutePlanApplied (eventsOf (scanButton diluteBit LOW) s)"
    using dilutePlanApplied_length by fastforce
  then show ?thesis using False by simp
next
  case True
  show ?thesis
  proof (cases "modePriority (buttonWord s)")
    case None
    have "length (eventsOf (scanButton diluteBit LOW) s) \<le> 5"
      using True None length_guardEvents [of s]
      by (simp add: eventsOf_dilute diluteNoModeEvents_def)
    then have "\<not> dilutePlanApplied (eventsOf (scanButton diluteBit LOW) s)"
      using dilutePlanApplied_length by fastforce
    then show ?thesis using None by simp
  next
    case (Some k)
    then have "k < 4" by (rule modePriority_less)
    then show ?thesis
      using True Some by (simp add: eventsOf_dilute dilutePlanApplied_diluteEvents)
  qed
qed

lemma dilute_rejected_state:
  assumes "\<not> active (buttonWord s) analyzeBit"
  shows "pinsToSet (scanButton diluteBit LOW s) = pinsToSet s"
    and "buttonWord (scanButton diluteBit LOW s) =
          (if active (LEDWord s) standardBit
           then bitWrite (buttonWord s) (lsb ! standardBit) HIGH else buttonWord s)"
    and "LEDWord (scanButton diluteBit LOW s) =
          (if active (LEDWord s) standardBit
           then bitWrite (LEDWord s) (lsb ! standardBit) HIGH else LEDWord s)"
proof -
  let ?g = "standardClear (s\<lparr>buttonState := LOW, lastbuttonState := 0\<rparr>)"
  have "bit (buttonWord ?g) 6"
    using assms by (simp add: standardClear_keeps_bit active_def analyzeBit_def)
  from dilutePressed_rejected [OF this]
  have "pinsToSet (dilutePressed ?g) = pinsToSet ?g"
    by simp
  then show "pinsToSet (scanButton diluteBit LOW s) = pinsToSet s"
    by (simp only: scanButton_dilute standardClear_fields) simp
  show "buttonWord (scanButton diluteBit LOW s) =
          (if active (LEDWord s) standardBit
           then bitWrite (buttonWord s) (lsb ! standardBit) HIGH else buttonWord s)"
    by (simp add: scanButton_dilute dilutePressed_fields standardClear_eq)
  show "LEDWord (scanButton diluteBit LOW s) =
          (if active (LEDWord s) standardBit
           then bitWrite (LEDWord s) (lsb ! standardBit) HIGH else LEDWord s)"
    by (simp add: scanButton_dilute dilutePressed_fields standardClear_eq)
qed

lemma fold_lookup_step_pinsToSet:
  "pinsToSet (fold lookup_step ks s) =
     fold (\<lambda>i p. if buttonWord s = buttonSetsOneStep ! i then setPinsOneStep ! i else p) ks
       (pinsToSet s)"
  by (induction ks arbitrary: s) (simp_all add: lookup_step_def)

lemma lookupOneStep_pinsToSet:
  "pinsToSet (lookupOneStep s) = planFor (buttonWord s) (pinsToSet s)"
  by (simp add: lookupOneStep_def planFor_def fold_lookup_step_pinsToSet)

lemma upt_0_12: "[0..<12] = [0, 1, 2, 3, 4, 5, 6, 7, 8, 9, 10, 11]"
  by code_simp

lemma planFor_idem: "planFor bw (planFor bw p) = planFor bw p"
  by (simp add: planFor_def upt_0_12)

lemma actionOrModePressed_pinsToSet:
  "pinsToSet (actionOrModePressed p s) =
     planFor (buttonWord (actionOrModePressed p s)) (pinsToSet s)"
  by (simp add: actionOrModePressed_def actionPressed_def modePressed_def Let_def
        lookupOneStep_pinsToSet planFor_idem actionIdx_def nActions_def modeIdx_def nModes_def
        offOthers_def)

lemma setup_LEDWord_bit0: "bit (LEDWord (setup_sketch s)) 0"
  by (simp add: setup_words buttonSetStartup_def)

lemma standardState_fields:
  "buttonWord standardState = 65534" "LEDWord standardState = 65534"
  "pinsToSet standardState = 64144"
  by (simp_all add: standardState_def scanButton_unfold groupHandling_words standardClear_fields
        groupHandling_def standardPressed_fields
        setup_words buttonSetStartup_def setPinsStartup_def standardBit_def
        actionIdx_def nActions_def nModes_def
        offOthers_def lsb_def upt_0_16 bitSet_def bitClear_def)

lemma analyzeNoModeState_fields:
  "buttonWord analyzeNoModeState = 65471" "LEDWord analyzeNoModeState = 65471"
proof -
  show "buttonWord analyzeNoModeState = 65471"
    by (simp add: analyzeNoModeState_def scanButton_unfold groupHandling_words
          standardClear_fields standardState_fields analyzeBit_def
          offOthers_def lsb_def bitSet_def bitClear_def)
  show "LEDWord analyzeNoModeState = 65471"
    by (simp add: analyzeNoModeState_def scanButton_unfold groupHandling_words
          standardClear_fields standardState_fields analyzeBit_def
          offOthers_def lsb_def bitSet_def bitClear_def)
qed

lemma analyzeLoopAState_fields:
  "buttonWord analyzeLoopAState = 65463" "LEDWord analyzeLoopAState = 65463"
proof -
  show "buttonWord analyzeLoopAState = 65463"
    by (simp add: analyzeLoopAState_def scanButton_unfold groupHandling_words
          standardClear_fields setup_words buttonSetStartup_def analyzeBit_def
          offOthers_def lsb_def bitSet_def bitClear_def)
  show "LEDWord analyzeLoopAState = 65463"
    by (simp add: analyzeLoopAState_def scanButton_unfold groupHandling_words
          standardClear_fields setup_words buttonSetStartup_def analyzeBit_def
          offOthers_def lsb_def bitSet_def bitClear_def)
qed

lemma reachable_states:
  "reachable standardState" "reachable analyzeNoModeState" "reachable analyzeLoopAState"
proof -
  show s: "reachable standardState"
    unfolding standardState_def by (rule reachable_one_press) (simp_all add: standardBit_def)
  show "reachable analyzeNoModeState"
    unfolding analyzeNoModeState_def
    by (rule reachable.after_scan [OF s]) (simp_all add: analyzeBit_def actionIdx_def)
  show "reachable analyzeLoopAState"
    unfolding analyzeLoopAState_def by (rule reachable_one_press) (simp_all add: analyzeBit_def)
qed

subsection \<open>Traces of the handlers and pin levels\<close>

lemma switchOff_step_trace [simp]:
  "trace (switchOff_step p i s) =
     trace s @ (if i \<noteq> p then [DigitalWrite (LEDPins ! i) LOW] else [])"
  by (simp add: switchOff_step_def Let_def)

lemma pinLevels_snoc_write:
  "pinLevels (xs @ [DigitalWrite pin v]) = (pinLevels xs)(pin \<mapsto> v)"
  by (simp add: pinLevels_append)

text \<open>No event of the list is a write to the pin.\<close>

lemma pinLevels_untouched:
  "\<forall>e \<in> set evs. \<forall>v. e \<noteq> DigitalWrite pin v \<Longrightarrow> pinLevels (xs @ evs) pin = pinLevels xs pin"
proof (induction evs rule: rev_induct)
  case Nil
  then show ?case by simp
next
  case (snoc e evs)
  have "pinLevels (xs @ evs @ [e]) pin = pinLevels (xs @ evs) pin"
  proof (cases e)
    case (DigitalWrite q v)
    then have "q \<noteq> pin" using snoc.prems by auto
    then show ?thesis
      using DigitalWrite pinLevels_append [of "xs @ evs" "[e]"] by simp
  qed (simp_all add: pinLevels_append [of "xs @ evs", simplified])
  then show ?case using snoc by simp
qed

lemma actionPressed_trace:
  "trace (actionPressed p s) =
     trace s @ [DigitalWrite (LEDPins ! p) HIGH]
       @ map (\<lambda>i. DigitalWrite (LEDPins ! i) LOW) (filter (\<lambda>i. i \<noteq> p) [7, 8, 9])
       @ [SerialPrintln ''Pushed Action'']
       @ displayStates_events (buttonWord (actionPressed p s)) (pinsToSet (actionPressed p s))
       @ setOutputPins_events (pinsToSet (actionPressed p s))
       @ [Delay buttonBounceDelay]"
  by (simp add: actionPressed_def Let_def actionIdx_def nActions_def offOthers_def)

lemma modePressed_trace:
  "trace (modePressed p s) =
     trace s @ [DigitalWrite (LEDPins ! p) HIGH]
       @ map (\<lambda>i. DigitalWrite (LEDPins ! i) LOW) (filter (\<lambda>i. i \<noteq> p) [10, 11, 12, 13])"
  by (simp add: modePressed_def Let_def modeIdx_def nModes_def)

lemma actionOrModePressed_trace:
  "trace (actionOrModePressed p s) =
     trace s @
     (if 7 \<le> p \<and> p < 10 then
        [DigitalWrite (LEDPins ! p) HIGH]
        @ map (\<lambda>i. DigitalWrite (LEDPins ! i) LOW) (filter (\<lambda>i. i \<noteq> p) [7, 8, 9])
        @ [SerialPrintln ''Pushed Action'']
        @ displayStates_events (buttonWord (actionPressed p s)) (pinsToSet (actionPressed p s))
        @ setOutputPins_events (pinsToSet (actionPressed p s))
        @ [Delay buttonBounceDelay]
      else if 10 \<le> p \<and> p < 14 then
        [DigitalWrite (LEDPins ! p) HIGH]
        @ map (\<lambda>i. DigitalWrite (LEDPins ! i) LOW) (filter (\<lambda>i. i \<noteq> p) [10, 11, 12, 13])
      else [])
     @ [SerialPrintln ''Pushed Mode'']
     @ displayStates_events (buttonWord (actionOrModePressed p s))
         (pinsToSet (actionOrModePressed p s))
     @ setOutputPins_events (pinsToSet (actionOrModePressed p s))
     @ [Delay buttonBounceDelay]"
  by (simp add: actionOrModePressed_def Let_def actionPressed_trace modePressed_trace
        actionIdx_def nActions_def modeIdx_def nModes_def del: actionPressed_fields
        modePressed_fields)


lemma standardPressed_trace:
  "trace (standardPressed s) =
     trace s @ [DigitalWrite (LEDPins ! standardBit) HIGH]
       @ map (\<lambda>i. DigitalWrite (LEDPins ! i) LOW) (filter (\<lambda>i. i \<noteq> standardBit) [0..<16])
       @ [SerialPrintln ''Pushed Standard'']
       @ displayStates_events (buttonWord (standardPressed s)) setPinsStandard
       @ setOutputPins_events setPinsStandard
       @ [Delay buttonBounceDelay]"
  by (simp add: standardPressed_def Let_def)

lemma dilutePressed_trace:
  "\<exists>evs. trace (dilutePressed s) = trace s @ evs
     \<and> evs \<in> {diluteRejectedEvents, diluteNoModeEvents} \<union>
         {diluteEvents k (buttonWord s) |k. k < 4}"
proof (cases "bit (buttonWord s) 6")
  case True
  from dilutePressed_rejected [OF this] show ?thesis by simp
next
  case False
  show ?thesis
  proof (cases "modePriority (buttonWord s)")
    case None
    from dilutePressed_no_mode [OF False None] show ?thesis by simp
  next
    case (Some k)
    from dilutePressed_accepted [OF False Some] modePriority_less [OF Some]
    show ?thesis by auto
  qed
qed

lemma groupHandling_extends: "prefix (trace s) (trace (groupHandling p s))"
  using dilutePressed_trace [of s]
  by (auto simp add: groupHandling_def actionOrModePressed_trace standardPressed_trace)

lemma setOutputPins_events_other_pin:
  "pin \<notin> set outPins \<Longrightarrow> \<forall>e \<in> set (setOutputPins_events p). \<forall>v. e \<noteq> DigitalWrite pin v"
  by (simp add: setOutputPins_events_explicit outPins_def)

lemma displayStates_events_no_write:
  "\<forall>e \<in> set (displayStates_events a b). \<forall>v. e \<noteq> DigitalWrite pin v"
  by (simp add: displayStates_events_def)

lemma dilute_events_no_52:
  "\<forall>e \<in> set diluteRejectedEvents. \<forall>v. e \<noteq> DigitalWrite 52 v"
  "\<forall>e \<in> set diluteNoModeEvents. \<forall>v. e \<noteq> DigitalWrite 52 v"
  "\<forall>e \<in> set (diluteEvents k bw). \<forall>v. e \<noteq> DigitalWrite 52 v"
  using setOutputPins_events_other_pin [of 52] displayStates_events_no_write [of _ _ 52]
  by (simp_all add: diluteRejectedEvents_def diluteNoModeEvents_def diluteEvents_def dilutePhase1Events_def dilutePhase2Events_def
        LEDPins_def diluteBit_def outPins_def ball_Un)

lemma groupHandling_no_52:
  assumes "7 \<le> p" "p < 15"
  shows "\<exists>evs. trace (groupHandling p s) = trace s @ evs
           \<and> (\<forall>e \<in> set evs. \<forall>v. e \<noteq> DigitalWrite 52 v)"
proof -
  from assms have "p = 7 \<or> p = 8 \<or> p = 9 \<or> p = 10 \<or> p = 11 \<or> p = 12 \<or> p = 13 \<or> p = 14"
    by arith
  then consider (am) "p = 7 \<or> p = 8 \<or> p = 9 \<or> p = 10 \<or> p = 11 \<or> p = 12 \<or> p = 13"
    | (dil) "p = 14" by blast
  then show ?thesis
  proof cases
    case am
    have g: "groupHandling p s = actionOrModePressed p s"
      using am by (auto simp add: groupHandling_def actionIdx_def nActions_def nModes_def)
    let ?evs = "drop (length (trace s)) (trace (actionOrModePressed p s))"
    have "\<forall>e \<in> set ?evs. \<forall>v. e \<noteq> DigitalWrite 52 v"
      unfolding actionOrModePressed_trace
      using am setOutputPins_events_other_pin [of 52] displayStates_events_no_write [of _ _ 52]
      by (auto simp add: LEDPins_def outPins_def ball_Un)
    moreover have "trace (actionOrModePressed p s) = trace s @ ?evs"
      by (simp add: actionOrModePressed_trace)
    ultimately show ?thesis unfolding g by blast
  next
    case dil
    have g: "groupHandling p s = dilutePressed s"
      using dil by (simp add: groupHandling_def actionIdx_def nActions_def nModes_def
            standardBit_def diluteBit_def)
    from dilutePressed_trace [of s] obtain evs where
      e: "trace (dilutePressed s) = trace s @ evs"
      "evs \<in> {diluteRejectedEvents, diluteNoModeEvents} \<union>
         {diluteEvents k (buttonWord s) |k. k < 4}" by blast
    from e(2) have "\<forall>e \<in> set evs. \<forall>v. e \<noteq> DigitalWrite 52 v"
      using dilute_events_no_52 by blast
    then show ?thesis using e(1) g by auto
  qed
qed

lemma groupHandling_keeps_standard:
  assumes "7 \<le> p" "p < 15"
  shows "bit (buttonWord (groupHandling p s)) 0 = bit (buttonWord s) 0"
    and "bit (LEDWord (groupHandling p s)) 0 = bit (LEDWord s) 0"
proof -
  from assms have "p = 7 \<or> p = 8 \<or> p = 9 \<or> p = 10 \<or> p = 11 \<or> p = 12 \<or> p = 13 \<or> p = 14"
    by arith
  then show "bit (buttonWord (groupHandling p s)) 0 = bit (buttonWord s) 0"
    by (auto simp add: groupHandling_words offOthers_def lsb_def bit_bitSet bit_bitClear)
  from \<open>p = 7 \<or> p = 8 \<or> p = 9 \<or> p = 10 \<or> p = 11 \<or> p = 12 \<or> p = 13 \<or> p = 14\<close>
  show "bit (LEDWord (groupHandling p s)) 0 = bit (LEDWord s) 0"
    by (auto simp add: groupHandling_words offOthers_def lsb_def bit_bitSet bit_bitClear)
qed

lemma driver_levels:
  "actuatorLevels (pre @ setOutputPins_events plan)
   = [Some (if bit plan 11 then HIGH else LOW), Some (if bit plan 10 then HIGH else LOW),
      Some (if bit plan 9 then HIGH else LOW), Some (if bit plan 8 then HIGH else LOW),
      Some (if bit plan 7 then HIGH else LOW), Some (if bit plan 6 then HIGH else LOW),
      Some (if bit plan 5 then HIGH else LOW), Some (if bit plan 4 then HIGH else LOW),
      Some (if bit plan 3 then HIGH else LOW), Some (if bit plan 2 then HIGH else LOW),
      Some (if bit plan 1 then HIGH else LOW), Some (if bit plan 0 then HIGH else LOW)]"
  by (simp add: actuatorLevels_def outPins_def pinLevels_append setOutputPins_events_explicit
        split del: if_split)

lemma planLevels_explicit:
  "planLevels plan
   = [Some (if bit plan 11 then HIGH else LOW), Some (if bit plan 10 then HIGH else LOW),
      Some (if bit plan 9 then HIGH else LOW), Some (if bit plan 8 then HIGH else LOW),
      Some (if bit plan 7 then HIGH else LOW), Some (if bit plan 6 then HIGH else LOW),
      Some (if bit plan 5 then HIGH else LOW), Some (if bit plan 4 then HIGH else LOW),
      Some (if bit plan 3 then HIGH else LOW), Some (if bit plan 2 then HIGH else LOW),
      Some (if bit plan 1 then HIGH else LOW), Some (if bit plan 0 then HIGH else LOW)]"
  by (simp add: planLevels_def outPins_def upt_0_16 active_def if_neg split del: if_split)

lemma actuatorLevels_driver:
  "actuatorLevels (pre @ setOutputPins_events plan) = planLevels plan"
  by (simp only: driver_levels planLevels_explicit)

lemma actuatorLevels_snoc [simp]:
  "actuatorLevels (xs @ [Delay d]) = actuatorLevels xs"
  "actuatorLevels (xs @ [SerialPrintln str]) = actuatorLevels xs"
  by (simp_all add: actuatorLevels_def pinLevels_append)



lemma actuatorLevels_resolveAndApply:
  "actuatorLevels (trace (resolveAndApply s)) = planLevels (pinsToSet (resolveAndApply s))"
proof -
  have "trace (resolveAndApply s) =
     ((trace s @ displayStates_events (buttonWord s) (pinsToSet (lookupOneStep s)))
       @ setOutputPins_events (pinsToSet (resolveAndApply s))) @ [Delay buttonBounceDelay]"
    by simp
  then show ?thesis
    by (simp only: actuatorLevels_snoc actuatorLevels_driver)
qed







subsection \<open>Actuator levels after the handlers\<close>

lemma actuatorLevels_untouched:
  assumes "\<forall>e \<in> set evs. \<forall>pin \<in> set outPins. \<forall>v. e \<noteq> DigitalWrite pin v"
  shows "actuatorLevels (xs @ evs) = actuatorLevels xs"
proof -
  have "pinLevels (xs @ evs) pin = pinLevels xs pin" if "pin \<in> set outPins" for pin
    using assms that by (intro pinLevels_untouched) blast
  then show ?thesis
    by (simp add: actuatorLevels_def)
qed

lemma guardEvents_no_actuator:
  "\<forall>e \<in> set (guardEvents s). \<forall>pin \<in> set outPins. \<forall>v. e \<noteq> DigitalWrite pin v"
  by (simp add: guardEvents_def LEDPins_def standardBit_def outPins_def)

lemma diluteNoModeEvents_no_actuator:
  "\<forall>e \<in> set diluteNoModeEvents. \<forall>pin \<in> set outPins. \<forall>v. e \<noteq> DigitalWrite pin v"
  by (simp add: diluteNoModeEvents_def LEDPins_def diluteBit_def outPins_def)

lemma actuatorLevels_phase1:
  "actuatorLevels (pre @ dilutePhase1Events k bw) = planLevels (setPinsDilute1 ! k)"
proof -
  have "pre @ dilutePhase1Events k bw =
     (pre @ [DigitalWrite (LEDPins ! diluteBit) HIGH,
        SerialPrint ''In analyze mode, will commence dilution '', SerialPrintln (modeName k)]
       @ displayStates_events bw (setPinsDilute1 ! k))
     @ setOutputPins_events (setPinsDilute1 ! k)"
    by (simp add: dilutePhase1Events_def)
  then show ?thesis by (simp only: actuatorLevels_driver)
qed

lemma actuatorLevels_diluteEvents:
  "actuatorLevels (pre @ diluteEvents k bw) = planLevels (setPinsDilute2 ! k)"
proof -
  let ?tail = "[Delay buttonBounceDelay, SerialPrintln ''Finished dilute process sequence'',
        DigitalWrite (LEDPins ! diluteBit) LOW]"
  have e: "pre @ diluteEvents k bw =
     ((pre @ dilutePhase1Events k bw @ [Delay diluteDelay, SerialPrintln ''now to analyze'']
        @ displayStates_events bw (setPinsDilute2 ! k))
      @ setOutputPins_events (setPinsDilute2 ! k)) @ ?tail"
    by (simp add: diluteEvents_def dilutePhase2Events_def)
  have "\<forall>e \<in> set ?tail. \<forall>pin \<in> set outPins. \<forall>v. e \<noteq> DigitalWrite pin v"
    by (simp add: LEDPins_def diluteBit_def outPins_def)
  then show ?thesis
    unfolding e by (simp only: actuatorLevels_untouched actuatorLevels_driver)
qed

lemma actuatorLevels_guard:
  "actuatorLevels (trace (standardClear (s\<lparr>buttonState := a, lastbuttonState := b\<rparr>)))
     = actuatorLevels (trace s)"
  unfolding trace_guard using guardEvents_no_actuator by (rule actuatorLevels_untouched)

lemma actuatorLevels_actionOrModePressed:
  "actuatorLevels (trace (actionOrModePressed p s)) =
     planLevels (pinsToSet (actionOrModePressed p s))"
proof -
  obtain pre where "trace (actionOrModePressed p s) =
      (pre @ setOutputPins_events (pinsToSet (actionOrModePressed p s)))
      @ [Delay buttonBounceDelay]"
    using actionOrModePressed_trace [of p s] by (metis append.assoc)
  then show ?thesis
    by (simp only: actuatorLevels_snoc actuatorLevels_driver)
qed

lemma actuatorLevels_standardPressed:
  "actuatorLevels (trace (standardPressed s)) = planLevels setPinsStandard"
proof -
  obtain pre where "trace (standardPressed s) =
      (pre @ setOutputPins_events setPinsStandard) @ [Delay buttonBounceDelay]"
    using standardPressed_trace [of s] by (metis append.assoc)
  then show ?thesis
    by (simp only: actuatorLevels_snoc actuatorLevels_driver)
qed

lemma standardState_levels: "actuatorLevels (trace standardState) = planLevels setPinsStandard"
  by (simp add: standardState_def scanButton_unfold groupHandling_def standardBit_def
        actionIdx_def nActions_def nModes_def actuatorLevels_standardPressed)

lemma analyzeNoModeState_plan: "pinsToSet analyzeNoModeState = 64144"
proof -
  let ?g = "standardClear (standardState\<lparr>buttonState := LOW, lastbuttonState := word_of_int LOW\<rparr>)"
  have s: "analyzeNoModeState = actionOrModePressed 9 ?g"
    by (simp add: analyzeNoModeState_def scanButton_unfold groupHandling_def analyzeBit_def
          actionIdx_def nActions_def nModes_def)
  have b: "buttonWord (actionOrModePressed 9 ?g) = 65471"
    using analyzeNoModeState_fields(1) by (simp only: s)
  have p: "pinsToSet ?g = 64144"
    by (simp add: standardClear_fields standardState_fields)
  show ?thesis
    unfolding s actionOrModePressed_pinsToSet b p
    by (simp add: planFor_def upt_0_12 buttonSetsOneStep_def)
qed

lemma analyzeNoModeState_levels:
  "actuatorLevels (trace analyzeNoModeState) = planLevels (pinsToSet analyzeNoModeState)"
proof -
  let ?g = "standardClear (standardState\<lparr>buttonState := LOW, lastbuttonState := word_of_int LOW\<rparr>)"
  have s: "analyzeNoModeState = actionOrModePressed 9 ?g"
    by (simp add: analyzeNoModeState_def scanButton_unfold groupHandling_def analyzeBit_def
          actionIdx_def nActions_def nModes_def)
  show ?thesis unfolding s by (rule actuatorLevels_actionOrModePressed)
qed

lemma standard_startup_levels_differ: "planLevels setPinsStandard \<noteq> planLevels setPinsStartup"
  by (simp add: planLevels_explicit setPinsStandard_def setPinsStartup_def HIGH_def LOW_def)

section \<open>The Output Driver\<close>

text \<open>
  Claim C1. The Output Driver should drive each wired actuator HIGH for a plan bit 1 and
  LOW for a plan bit 0, and write nothing for a position with no actuator. On the Startup
  plan 64144 the twelve wired actuators (pins 40 to 51) are driven as the plan says, but
  the four absent positions 0 to 3, whose \<open>outPins\<close> entry is 0, each get a write
  of LOW to pin 0: the test \<open>bitValue && outPins[lsb[b]]\<close> sends them to the else
  branch.
\<close>

theorem setOutputPins_writes_absent_pin:
  "eventsOf (setOutputPins setPinsStartup) initial_state =
     [DigitalWrite 40 LOW, DigitalWrite 41 LOW, DigitalWrite 42 LOW, DigitalWrite 43 LOW,
      DigitalWrite 44 HIGH, DigitalWrite 45 LOW, DigitalWrite 46 LOW, DigitalWrite 47 HIGH,
      DigitalWrite 48 LOW, DigitalWrite 49 HIGH, DigitalWrite 50 LOW, DigitalWrite 51 HIGH,
      DigitalWrite 0 LOW, DigitalWrite 0 LOW, DigitalWrite 0 LOW, DigitalWrite 0 LOW]
   \<and> applyActuation_spec setPinsStartup =
     [DigitalWrite 40 LOW, DigitalWrite 41 LOW, DigitalWrite 42 LOW, DigitalWrite 43 LOW,
      DigitalWrite 44 HIGH, DigitalWrite 45 LOW, DigitalWrite 46 LOW, DigitalWrite 47 HIGH,
      DigitalWrite 48 LOW, DigitalWrite 49 HIGH, DigitalWrite 50 LOW, DigitalWrite 51 HIGH]
   \<and> DigitalWrite (outPins ! 0) LOW \<in> set (eventsOf (setOutputPins setPinsStartup) initial_state)
   \<and> outPins ! 0 = 0"
  by (simp add: eventsOf_setOutputPins setOutputPins_events_explicit applyActuation_spec_explicit
        setPinsStartup_def outPins_def)

section \<open>Initialization\<close>

text \<open>
  Claim C7. After \<open>setup\<close>, from any values of the globals (and \<open>setup\<close>
  reads no input pin, so for any levels of the buttons): \<open>buttonWord\<close> and
  \<open>LEDWord\<close> are the Startup constant 65399, whose active positions are Load and
  Loop A; the Load and Loop-A indicator pins were last written HIGH; \<open>pinsToSet\<close>
  is the Startup plan 64144, the trace ends with the writes of \<open>setOutputPins\<close> on
  that plan, and every wired actuator pin is at the level the plan gives it.
\<close>

theorem setup_startup_state:
  "buttonWord (setup_sketch s) = 65399 \<and> LEDWord (setup_sketch s) = 65399
   \<and> pinsToSet (setup_sketch s) = 64144
   \<and> buttonSetStartup = 65399 \<and> setPinsStartup = 64144
   \<and> filter (active (buttonWord (setup_sketch s))) [0..<16] = [loadBit, loopABit]
   \<and> pinLevels (trace (setup_sketch s)) (LEDPins ! loadBit) = Some HIGH
   \<and> pinLevels (trace (setup_sketch s)) (LEDPins ! loopABit) = Some HIGH
   \<and> suffix (setOutputPins_events setPinsStartup) (trace (setup_sketch s))
   \<and> actuatorLevels (trace (setup_sketch s)) = planLevels setPinsStartup"
proof -
  obtain pre where tr: "trace (setup_sketch s) =
     pre @ [DigitalWrite 35 HIGH, DigitalWrite 31 HIGH]
         @ displayStates_events buttonSetStartup setPinsStartup
         @ setOutputPins_events setPinsStartup"
    using setup_trace_tail by blast
  have words: "buttonWord (setup_sketch s) = 65399" "LEDWord (setup_sketch s) = 65399"
    "pinsToSet (setup_sketch s) = 64144"
    by (simp_all add: setup_words buttonSetStartup_def setPinsStartup_def)
  have act: "filter (active (buttonWord (setup_sketch s))) [0..<16] = [loadBit, loopABit]"
    by (simp add: words upt_0_16 active_def loadBit_def loopABit_def)
  have suf: "suffix (setOutputPins_events setPinsStartup) (trace (setup_sketch s))"
    unfolding tr by (simp add: suffix_def)
  have led: "pinLevels (trace (setup_sketch s)) (LEDPins ! loadBit) = Some HIGH"
    "pinLevels (trace (setup_sketch s)) (LEDPins ! loopABit) = Some HIGH"
    unfolding tr
    by (simp_all add: pinLevels_append displayStates_events_def setOutputPins_events_explicit
          LEDPins_def loadBit_def loopABit_def)
  have "trace (setup_sketch s) =
     (pre @ [DigitalWrite 35 HIGH, DigitalWrite 31 HIGH]
          @ displayStates_events buttonSetStartup setPinsStartup)
     @ setOutputPins_events setPinsStartup"
    unfolding tr by simp
  then have out: "actuatorLevels (trace (setup_sketch s)) = planLevels setPinsStartup"
    by (simp only: actuatorLevels_driver)
  show ?thesis
    using words act suf led out by (simp add: buttonSetStartup_def setPinsStartup_def)
qed

theorem setup_startup_state_witness:
  "buttonWord (setup_sketch initial_state) = 65399
   \<and> LEDWord (setup_sketch initial_state) = 65399
   \<and> pinsToSet (setup_sketch initial_state) = 64144
   \<and> pinLevels (trace (setup_sketch initial_state)) (LEDPins ! loadBit) = Some HIGH
   \<and> pinLevels (trace (setup_sketch initial_state)) (LEDPins ! loopABit) = Some HIGH
   \<and> actuatorLevels (trace (setup_sketch initial_state)) = planLevels setPinsStartup"
  using setup_startup_state [of initial_state] by (elim conjE, intro conjI) assumption+

section \<open>The single-step table\<close>

text \<open>
  Claim C4, as stated: with \<open>buttonWord\<close> equal to none of the 12 keys the scan
  leaves \<open>pinsToSet\<close> unchanged, so that the previously applied plan remains in
  effect. The second part fails after a Standard press, which applies
  \<open>setPinsStandard\<close> without storing it in \<open>pinsToSet\<close>. Pressing Analyze
  next gives \<open>buttonWord\<close> 65471, which is no key, and \<open>pinsToSet\<close> stays
  64144; but the actuator pins, which carried the levels of the Standard plan, now carry
  those of the retained plan 64144, and the two differ.
\<close>

theorem lookup_unmatched_counterexample:
  "reachable standardState
   \<and> analyzeNoModeState = scanButton analyzeBit LOW standardState
   \<and> buttonWord analyzeNoModeState = 65471
   \<and> buttonWord analyzeNoModeState \<notin> set buttonSetsOneStep
   \<and> pinsToSet standardState = 64144
   \<and> pinsToSet analyzeNoModeState = 64144
   \<and> actuatorLevels (trace standardState) = planLevels setPinsStandard
   \<and> actuatorLevels (trace analyzeNoModeState) = planLevels setPinsStartup
   \<and> planLevels setPinsStandard \<noteq> planLevels setPinsStartup"
proof -
  have k: "buttonWord analyzeNoModeState \<notin> set buttonSetsOneStep"
    by (simp add: analyzeNoModeState_fields buttonSetsOneStep_def)
  have l: "actuatorLevels (trace analyzeNoModeState) = planLevels setPinsStartup"
    by (simp add: analyzeNoModeState_levels analyzeNoModeState_plan setPinsStartup_def)
  show ?thesis
    using reachable_states(1) analyzeNoModeState_def analyzeNoModeState_fields(1) k
      standardState_fields(3) analyzeNoModeState_plan standardState_levels l
      standard_startup_levels_differ
    by (intro conjI)
qed

text \<open>
  Claim C4, amended. When \<open>buttonWord\<close> equals none of the 12 keys, the table scan
  changes nothing: \<open>pinsToSet\<close> keeps the plan it held and no other plan is put in
  its place. The code that follows the scan shows and applies that retained plan, so the
  wired actuator pins end at its levels; when they carried the levels of
  \<open>pinsToSet\<close> before, they are unchanged.
\<close>

theorem lookup_unmatched_keeps_plan:
  "buttonWord s \<notin> set buttonSetsOneStep \<Longrightarrow>
     lookupOneStep s = s \<and> pinsToSet (lookupOneStep s) = pinsToSet s
     \<and> pinsToSet (resolveAndApply s) = pinsToSet s
     \<and> eventsOf resolveAndApply s =
         displayStates_events (buttonWord s) (pinsToSet s)
         @ setOutputPins_events (pinsToSet s) @ [Delay buttonBounceDelay]
     \<and> actuatorLevels (trace (resolveAndApply s)) = planLevels (pinsToSet s)
     \<and> (actuatorLevels (trace s) = planLevels (pinsToSet s) \<longrightarrow>
          actuatorLevels (trace (resolveAndApply s)) = actuatorLevels (trace s))"
proof -
  assume nokey: "buttonWord s \<notin> set buttonSetsOneStep"
  have "\<forall>k \<in> set [0..<12]. buttonWord s \<noteq> buttonSetsOneStep ! k"
  proof
    fix k assume "k \<in> set [0..<12]"
    then have "buttonSetsOneStep ! k \<in> set buttonSetsOneStep"
      by (simp add: length_buttonSetsOneStep)
    then show "buttonWord s \<noteq> buttonSetsOneStep ! k" using nokey by metis
  qed
  then have l: "lookupOneStep s = s"
    unfolding lookupOneStep_def by (rule fold_lookup_unmatched)
  have p: "pinsToSet (resolveAndApply s) = pinsToSet s"
    by (simp add: l)
  have a: "actuatorLevels (trace (resolveAndApply s)) = planLevels (pinsToSet s)"
    by (simp only: actuatorLevels_resolveAndApply p)
  have e: "eventsOf resolveAndApply s =
         displayStates_events (buttonWord s) (pinsToSet s)
         @ setOutputPins_events (pinsToSet s) @ [Delay buttonBounceDelay]"
    by (simp add: l eventsOf_def)
  show ?thesis using l p a e by simp
qed

theorem lookup_unmatched_keeps_plan_witness:
  "buttonWord analyzeNoModeState \<notin> set buttonSetsOneStep
   \<and> buttonWord analyzeNoModeState = 65471
   \<and> actuatorLevels (trace analyzeNoModeState) = planLevels (pinsToSet analyzeNoModeState)
   \<and> lookupOneStep analyzeNoModeState = analyzeNoModeState
   \<and> pinsToSet (resolveAndApply analyzeNoModeState) = pinsToSet analyzeNoModeState
   \<and> actuatorLevels (trace (resolveAndApply analyzeNoModeState)) =
       actuatorLevels (trace analyzeNoModeState)"
proof -
  have h: "buttonWord analyzeNoModeState \<notin> set buttonSetsOneStep"
    by (simp add: analyzeNoModeState_fields buttonSetsOneStep_def)
  note t = lookup_unmatched_keeps_plan [OF h]
  from t analyzeNoModeState_levels
  have u: "actuatorLevels (trace (resolveAndApply analyzeNoModeState)) =
       actuatorLevels (trace analyzeNoModeState)"
    by (elim conjE impE)
  from t have l: "lookupOneStep analyzeNoModeState = analyzeNoModeState"
    by (elim conjE)
  from t have p: "pinsToSet (resolveAndApply analyzeNoModeState) = pinsToSet analyzeNoModeState"
    by (elim conjE)
  show ?thesis
    using h analyzeNoModeState_fields(1) analyzeNoModeState_levels l p u by (intro conjI)
qed

text \<open>
  Claim C8. When \<open>buttonWord\<close> is the key of row \<open>k\<close>, the scan sets
  \<open>pinsToSet\<close> to the plan of row \<open>k\<close>. A row matches by equality of the two
  words; the 12 keys are pairwise distinct, so every other row leaves the state alone, and
  scanning the rows in any order gives the same plan.
\<close>

theorem lookup_key_gives_paired_plan:
  "k < 12 \<Longrightarrow> buttonWord s = buttonSetsOneStep ! k \<Longrightarrow>
     pinsToSet (lookupOneStep s) = setPinsOneStep ! k
     \<and> distinct buttonSetsOneStep
     \<and> (\<forall>j < 12. j \<noteq> k \<longrightarrow> lookup_step j s = s)
     \<and> (\<forall>ks. set ks = {0..<12} \<longrightarrow> pinsToSet (fold lookup_step ks s) = setPinsOneStep ! k)"
proof -
  assume k: "k < 12" and bw: "buttonWord s = buttonSetsOneStep ! k"
  have a: "pinsToSet (lookupOneStep s) = setPinsOneStep ! k"
    unfolding lookupOneStep_def using fold_lookup_matched [OF bw k, of "[0..<12]"] k by simp
  have b: "\<forall>j < 12. j \<noteq> k \<longrightarrow> lookup_step j s = s"
  proof (intro allI impI)
    fix j :: nat assume "j < 12" "j \<noteq> k"
    then have "buttonSetsOneStep ! j \<noteq> buttonSetsOneStep ! k"
      using k distinct_buttonSetsOneStep
      by (simp add: nth_eq_iff_index_eq length_buttonSetsOneStep)
    then show "lookup_step j s = s" using bw by (simp add: lookup_step_def)
  qed
  have c: "\<forall>ks. set ks = {0..<12} \<longrightarrow> pinsToSet (fold lookup_step ks s) = setPinsOneStep ! k"
  proof (intro allI impI)
    fix ks :: "nat list" assume ks: "set ks = {0..<12}"
    then have "\<forall>j \<in> set ks. j < 12" by simp
    from fold_lookup_matched [OF bw k this] ks k
    show "pinsToSet (fold lookup_step ks s) = setPinsOneStep ! k" by simp
  qed
  show ?thesis using a b c distinct_buttonSetsOneStep by blast
qed

theorem lookup_key_gives_paired_plan_witness:
  "(6::nat) < 12 \<and> buttonWord (setup_sketch initial_state) = buttonSetsOneStep ! 6
   \<and> pinsToSet (lookupOneStep (setup_sketch initial_state)) = 64144
   \<and> pinsToSet (fold lookup_step (rev [0..<12]) (setup_sketch initial_state)) = 64144"
proof -
  have h1: "(6::nat) < 12" by simp
  have h2: "buttonWord (setup_sketch initial_state) = buttonSetsOneStep ! 6"
    by (simp add: setup_words buttonSetStartup_def buttonSetsOneStep_def)
  have h3: "set (rev [0..<12]) = {0..<12}" by simp
  have v: "setPinsOneStep ! 6 = 64144" by (simp add: setPinsOneStep_def)
  show ?thesis
    using h1 h2 h3 v lookup_key_gives_paired_plan [OF h1 h2] by metis
qed

section \<open>Invariants of the masks\<close>

text \<open>
  Claim C5. In every state reached from the end of \<open>setup\<close> by scan iterations,
  \<open>buttonWord\<close> has at most one active position among 7 to 9 and at most one among
  10 to 13. Right after a Standard press, from any state, position 15 is the only active
  position of the 16.
\<close>

theorem group_exclusivity:
  "(reachable s \<longrightarrow>
      countActive (buttonWord s) [actionIdx..<actionIdx + nActions] \<le> 1
      \<and> countActive (buttonWord s) [modeIdx..<modeIdx + nModes] \<le> 1)
   \<and> filter (active (buttonWord (scanButton standardBit LOW s))) [0..<16] = [standardBit]"
  using reachable_groups [of s] standard_only [of s] by (simp add: groupsExclusive_def)

theorem group_exclusivity_witness:
  "reachable (scanButton analyzeBit LOW (setup_sketch initial_state))
   \<and> countActive (buttonWord (scanButton analyzeBit LOW (setup_sketch initial_state)))
        [actionIdx..<actionIdx + nActions] \<le> 1
   \<and> countActive (buttonWord (scanButton analyzeBit LOW (setup_sketch initial_state)))
        [modeIdx..<modeIdx + nModes] \<le> 1
   \<and> buttonWord (scanButton analyzeBit LOW (setup_sketch initial_state)) = 65463"
proof -
  have r: "reachable (scanButton analyzeBit LOW (setup_sketch initial_state))"
    by (rule reachable_one_press) (simp_all add: analyzeBit_def)
  have w: "buttonWord (scanButton analyzeBit LOW (setup_sketch initial_state)) = 65463"
    by (simp add: scanButton_unfold groupHandling_words standardClear_fields setup_words
          buttonSetStartup_def analyzeBit_def offOthers_def lsb_def bitSet_def bitClear_def)
  show ?thesis
    using r w group_exclusivity [of "scanButton analyzeBit LOW (setup_sketch initial_state)"]
    by simp
qed

text \<open>
  Claim C9. In every state reached from the end of \<open>setup\<close> by scan iterations,
  \<open>LEDWord\<close> equals \<open>buttonWord\<close>: a scan iteration, whatever the position and
  the level read, takes equal masks to equal masks, and the dilute handler changes
  neither mask.
\<close>

theorem indicator_mirrors_button:
  "(reachable s \<longrightarrow> LEDWord s = buttonWord s)
   \<and> (LEDWord s = buttonWord s \<longrightarrow>
        LEDWord (scanButton p r s) = buttonWord (scanButton p r s))
   \<and> buttonWord (dilutePressed s) = buttonWord s \<and> LEDWord (dilutePressed s) = LEDWord s"
  using reachable_mirror [of s] mirror_scanButton [of s p r]
  by (simp add: dilutePressed_fields)

theorem indicator_mirrors_button_witness:
  "reachable (scanButton analyzeBit LOW (setup_sketch initial_state))
   \<and> LEDWord (scanButton analyzeBit LOW (setup_sketch initial_state)) = 65463
   \<and> buttonWord (scanButton analyzeBit LOW (setup_sketch initial_state)) = 65463
   \<and> LEDWord (scanButton diluteBit LOW (scanButton analyzeBit LOW (setup_sketch initial_state)))
       = buttonWord (scanButton diluteBit LOW
           (scanButton analyzeBit LOW (setup_sketch initial_state)))"
proof -
  have r: "reachable (scanButton analyzeBit LOW (setup_sketch initial_state))"
    by (rule reachable_one_press) (simp_all add: analyzeBit_def)
  have w: "buttonWord (scanButton analyzeBit LOW (setup_sketch initial_state)) = 65463"
    by (simp add: scanButton_unfold groupHandling_words standardClear_fields setup_words
          buttonSetStartup_def analyzeBit_def offOthers_def lsb_def bitSet_def bitClear_def)
  show ?thesis
    using r w indicator_mirrors_button
      [of "scanButton analyzeBit LOW (setup_sketch initial_state)" diluteBit LOW]
    by simp
qed

section \<open>The dilute press\<close>

text \<open>
  Claim C3. When the dilute button reads LOW in a state whose Analyze position is active,
  the handler takes the first active Mode position in the order Discrete, Septum, Loop A,
  Loop B. With index \<open>k\<close> found, the run is exactly: guard, indicator on, the
  phase-1 plan \<open>setPinsDilute1[k]\<close> applied, a delay of 2000, the phase-2 plan
  \<open>setPinsDilute2[k]\<close> applied, the bounce delay, indicator off. When the delay
  starts the wired actuator pins are at the levels of the phase-1 plan, and when the run
  ends they are at the levels of the phase-2 plan, which \<open>pinsToSet\<close> then holds.
  With no Mode position active nothing is applied: the indicator goes on and off, the
  masks and \<open>pinsToSet\<close> are as the guard left them and the actuator pins keep
  their levels.
\<close>

theorem dilute_accepted_sequence:
  assumes "active (buttonWord s) analyzeBit"
  shows "diluteDelay = 2000 \<and>
    (let g = standardClear (s\<lparr>buttonState := LOW, lastbuttonState := 0\<rparr>);
         s' = scanButton diluteBit LOW s in
     case modePriority (buttonWord s) of
        Some k \<Rightarrow>
          s' = g\<lparr>pinsToSet := setPinsDilute2 ! k,
                 trace := trace g @ diluteEvents k (buttonWord g)\<rparr>
          \<and> diluteEvents k (buttonWord g) =
              dilutePhase1Events k (buttonWord g) @ [Delay diluteDelay]
              @ dilutePhase2Events k (buttonWord g)
          \<and> actuatorLevels (trace g @ dilutePhase1Events k (buttonWord g)) =
              planLevels (setPinsDilute1 ! k)
          \<and> actuatorLevels (trace s') = planLevels (setPinsDilute2 ! k)
      | None \<Rightarrow>
          s' = g\<lparr>trace := trace g @ diluteNoModeEvents\<rparr>
          \<and> actuatorLevels (trace s') = actuatorLevels (trace s))"
proof -
  let ?g = "standardClear (s\<lparr>buttonState := LOW, lastbuttonState := 0\<rparr>)"
  have an: "\<not> bit (buttonWord ?g) 6"
    using assms by (simp add: standardClear_keeps_bit active_def analyzeBit_def)
  have mp: "modePriority (buttonWord ?g) = modePriority (buttonWord s)"
    by (simp add: standardClear_modePriority)
  show ?thesis
  proof (cases "modePriority (buttonWord s)")
    case None
    have st: "scanButton diluteBit LOW s = ?g\<lparr>trace := trace ?g @ diluteNoModeEvents\<rparr>"
      using dilutePressed_no_mode [OF an] mp None by (simp add: scanButton_dilute)
    have "actuatorLevels (trace ?g @ diluteNoModeEvents) = actuatorLevels (trace ?g)"
      using diluteNoModeEvents_no_actuator by (rule actuatorLevels_untouched)
    then have lv: "actuatorLevels (trace (scanButton diluteBit LOW s)) = actuatorLevels (trace s)"
      by (simp add: st actuatorLevels_guard)
    show ?thesis
      using st lv None by (simp add: diluteDelay_def Let_def)
  next
    case (Some k)
    have st: "scanButton diluteBit LOW s =
        ?g\<lparr>pinsToSet := setPinsDilute2 ! k,
           trace := trace ?g @ diluteEvents k (buttonWord ?g)\<rparr>"
      using dilutePressed_accepted [OF an, of k] mp Some by (simp add: scanButton_dilute)
    have l2: "actuatorLevels (trace (scanButton diluteBit LOW s)) = planLevels (setPinsDilute2 ! k)"
      by (simp add: st actuatorLevels_diluteEvents)
    show ?thesis
      using st l2 Some
      by (simp add: diluteDelay_def Let_def actuatorLevels_phase1 diluteEvents_def)
  qed
qed

theorem dilute_accepted_sequence_witness:
  "active (buttonWord analyzeLoopAState) analyzeBit
   \<and> modePriority (buttonWord analyzeLoopAState) = Some 2
   \<and> eventsOf (scanButton diluteBit LOW) analyzeLoopAState = diluteEvents 2 65463
   \<and> pinsToSet (scanButton diluteBit LOW analyzeLoopAState) = 63841
   \<and> actuatorLevels (trace analyzeLoopAState @ dilutePhase1Events 2 65463) = planLevels 63914
   \<and> actuatorLevels (trace (scanButton diluteBit LOW analyzeLoopAState)) = planLevels 63841"
proof -
  have a: "active (buttonWord analyzeLoopAState) analyzeBit"
    by (simp add: analyzeLoopAState_fields active_def analyzeBit_def)
  have m: "modePriority (buttonWord analyzeLoopAState) = Some 2"
    by (simp add: analyzeLoopAState_fields modePriority_bits)
  have g: "standardClear (analyzeLoopAState\<lparr>buttonState := LOW, lastbuttonState := 0\<rparr>)
      = analyzeLoopAState\<lparr>buttonState := LOW, lastbuttonState := 0\<rparr>"
    by (simp add: standardClear_eq analyzeLoopAState_fields active_def standardBit_def)
  have v: "setPinsDilute2 ! 2 = 63841" "setPinsDilute1 ! 2 = 63914"
    by (simp_all add: setPinsDilute2_def setPinsDilute1_def)
  note t = dilute_accepted_sequence [OF a, unfolded Let_def m g option.case]
  from t have s: "scanButton diluteBit LOW analyzeLoopAState =
      analyzeLoopAState\<lparr>buttonState := LOW, lastbuttonState := 0,
        pinsToSet := setPinsDilute2 ! 2,
        trace := trace (analyzeLoopAState\<lparr>buttonState := LOW, lastbuttonState := 0\<rparr>)
          @ diluteEvents 2 (buttonWord (analyzeLoopAState\<lparr>buttonState := LOW,
              lastbuttonState := 0\<rparr>))\<rparr>"
    by simp
  have e: "eventsOf (scanButton diluteBit LOW) analyzeLoopAState = diluteEvents 2 65463"
    "pinsToSet (scanButton diluteBit LOW analyzeLoopAState) = 63841"
    by (simp_all add: s v eventsOf_def analyzeLoopAState_fields)
  from t have "actuatorLevels (trace (analyzeLoopAState\<lparr>buttonState := LOW, lastbuttonState := 0\<rparr>)
        @ dilutePhase1Events 2 (buttonWord (analyzeLoopAState\<lparr>buttonState := LOW,
              lastbuttonState := 0\<rparr>))) = planLevels (setPinsDilute1 ! 2)"
    by (elim conjE)
  then have l1: "actuatorLevels (trace analyzeLoopAState @ dilutePhase1Events 2 65463)
      = planLevels 63914"
    by (simp add: v analyzeLoopAState_fields)
  from t have "actuatorLevels (trace (scanButton diluteBit LOW analyzeLoopAState))
      = planLevels (setPinsDilute2 ! 2)"
    by (elim conjE)
  then have l2: "actuatorLevels (trace (scanButton diluteBit LOW analyzeLoopAState))
      = planLevels 63841"
    by (simp only: v)
  show ?thesis using a m e l1 l2 by (intro conjI)
qed

text \<open>
  Claim C2, as stated: a dilute-phase plan is applied exactly when Analyze is active, and a
  rejected press leaves the three masks as they were. Both parts fail on reachable
  states. After a Standard press Analyze is inactive, and a dilute press is rejected, yet
  the Standard-clear guard has changed \<open>buttonWord\<close> and \<open>LEDWord\<close> from
  65534 to 65535. After Standard and then Analyze, Analyze is active and no Mode is, and
  a dilute press applies no plan.
\<close>

theorem dilute_gating_counterexample:
  "reachable standardState
   \<and> \<not> active (buttonWord standardState) analyzeBit
   \<and> buttonWord standardState = 65534
   \<and> buttonWord (scanButton diluteBit LOW standardState) = 65535
   \<and> LEDWord standardState = 65534
   \<and> LEDWord (scanButton diluteBit LOW standardState) = 65535
   \<and> reachable analyzeNoModeState
   \<and> active (buttonWord analyzeNoModeState) analyzeBit
   \<and> \<not> dilutePlanApplied (eventsOf (scanButton diluteBit LOW) analyzeNoModeState)"
proof -
  have a: "\<not> active (buttonWord standardState) analyzeBit"
    by (simp add: standardState_fields active_def analyzeBit_def)
  have l: "active (LEDWord standardState) standardBit"
    by (simp add: standardState_fields active_def standardBit_def)
  have b: "buttonWord (scanButton diluteBit LOW standardState) = 65535"
    "LEDWord (scanButton diluteBit LOW standardState) = 65535"
    using l by (simp_all add: dilute_rejected_state [OF a] standardState_fields bitWrite_def
          HIGH_def bitSet_def lsb_def standardBit_def)
  have c: "active (buttonWord analyzeNoModeState) analyzeBit"
    by (simp add: analyzeNoModeState_fields active_def analyzeBit_def)
  have "modePriority (buttonWord analyzeNoModeState) = None"
    by (simp add: analyzeNoModeState_fields modePriority_bits)
  then have d: "\<not> dilutePlanApplied (eventsOf (scanButton diluteBit LOW) analyzeNoModeState)"
    by (simp add: dilute_applied_iff)
  show ?thesis
    using a b c d reachable_states standardState_fields by simp
qed

text \<open>
  Claim C2, amended. When the dilute button reads LOW, a dilute-phase plan is applied if
  and only if the Analyze position and at least one Mode position are active in
  \<open>buttonWord\<close>. When Analyze is not active the press is rejected:
  \<open>pinsToSet\<close> is unchanged, and \<open>buttonWord\<close> and \<open>LEDWord\<close> are
  unchanged when the Standard indicator bit is off; when it is on, the guard sets
  position 15 inactive in both and nothing else in them changes.
\<close>

theorem dilute_gating:
  "(dilutePlanApplied (eventsOf (scanButton diluteBit LOW) s) \<longleftrightarrow>
      active (buttonWord s) analyzeBit \<and> modePriority (buttonWord s) \<noteq> None)
   \<and> (\<not> active (buttonWord s) analyzeBit \<longrightarrow>
        eventsOf (scanButton diluteBit LOW) s = guardEvents s @ diluteRejectedEvents
        \<and> pinsToSet (scanButton diluteBit LOW s) = pinsToSet s
        \<and> buttonWord (scanButton diluteBit LOW s) =
            (if active (LEDWord s) standardBit
             then bitWrite (buttonWord s) (lsb ! standardBit) HIGH else buttonWord s)
        \<and> LEDWord (scanButton diluteBit LOW s) =
            (if active (LEDWord s) standardBit
             then bitWrite (LEDWord s) (lsb ! standardBit) HIGH else LEDWord s))"
  using dilute_applied_iff [of s] dilute_rejected_state [of s] eventsOf_dilute [of s]
  by simp

theorem dilute_gating_witness:
  "\<not> active (buttonWord (setup_sketch initial_state)) analyzeBit
   \<and> \<not> active (LEDWord (setup_sketch initial_state)) standardBit
   \<and> \<not> dilutePlanApplied (eventsOf (scanButton diluteBit LOW) (setup_sketch initial_state))
   \<and> eventsOf (scanButton diluteBit LOW) (setup_sketch initial_state) = diluteRejectedEvents
   \<and> pinsToSet (scanButton diluteBit LOW (setup_sketch initial_state)) = 64144
   \<and> buttonWord (scanButton diluteBit LOW (setup_sketch initial_state)) = 65399
   \<and> LEDWord (scanButton diluteBit LOW (setup_sketch initial_state)) = 65399"
proof -
  have a: "\<not> active (buttonWord (setup_sketch initial_state)) analyzeBit"
    by (simp add: setup_words buttonSetStartup_def active_def analyzeBit_def)
  have l: "\<not> active (LEDWord (setup_sketch initial_state)) standardBit"
    by (simp add: setup_words buttonSetStartup_def active_def standardBit_def)
  note t = dilute_gating [of "setup_sketch initial_state"]
  have n: "\<not> dilutePlanApplied (eventsOf (scanButton diluteBit LOW) (setup_sketch initial_state))"
    using t a by blast
  have e: "eventsOf (scanButton diluteBit LOW) (setup_sketch initial_state) = diluteRejectedEvents"
    using t a l by (simp add: guardEvents_def)
  have w: "pinsToSet (scanButton diluteBit LOW (setup_sketch initial_state)) = 64144"
    "buttonWord (scanButton diluteBit LOW (setup_sketch initial_state)) = 65399"
    "LEDWord (scanButton diluteBit LOW (setup_sketch initial_state)) = 65399"
    using t a l by (simp_all add: setup_words buttonSetStartup_def setPinsStartup_def)
  show ?thesis
    using a l n e w by blast
qed



section \<open>The Standard-clear guard\<close>

text \<open>
  Claim C6. When a scanned position 7 to 15 reads LOW while the Standard indicator bit is
  on, the scan iteration is the group handling run on the state the guard leaves: there
  the Standard position is inactive in both masks, and the guard's write, the indicator
  pin driven LOW, is the first event of the iteration. For a button other than Standard
  the position is still inactive in both masks, and the indicator pin still LOW, when
  the iteration ends.
\<close>

theorem standard_cleared_first:
  assumes "active (LEDWord s) standardBit" "actionIdx \<le> p" "p < 16"
  shows "let g = standardClear (s\<lparr>buttonState := LOW, lastbuttonState := 0\<rparr>) in
     scanButton p LOW s = groupHandling p g
     \<and> trace g = trace s @ [DigitalWrite (LEDPins ! standardBit) LOW]
     \<and> \<not> active (buttonWord g) standardBit \<and> \<not> active (LEDWord g) standardBit
     \<and> prefix (trace g) (trace (scanButton p LOW s))
     \<and> (p \<noteq> standardBit \<longrightarrow>
          \<not> active (buttonWord (scanButton p LOW s)) standardBit
          \<and> \<not> active (LEDWord (scanButton p LOW s)) standardBit
          \<and> pinLevels (trace (scanButton p LOW s)) (LEDPins ! standardBit) = Some LOW)"
proof -
  let ?g = "standardClear (s\<lparr>buttonState := LOW, lastbuttonState := 0\<rparr>)"
  have sc: "scanButton p LOW s = groupHandling p ?g"
    by (simp add: scanButton_unfold LOW_def)
  have tg: "trace ?g = trace s @ [DigitalWrite (LEDPins ! standardBit) LOW]"
    using assms(1) by (simp add: trace_guard guardEvents_def)
  have bg: "bit (buttonWord ?g) 0" "bit (LEDWord ?g) 0"
    using assms(1)
    by (simp_all add: standardClear_fields active_def standardBit_def bit_bitSet)
  have pre: "prefix (trace ?g) (trace (scanButton p LOW s))"
    unfolding sc by (rule groupHandling_extends)
  have rest: "\<not> active (buttonWord (scanButton p LOW s)) standardBit
          \<and> \<not> active (LEDWord (scanButton p LOW s)) standardBit
          \<and> pinLevels (trace (scanButton p LOW s)) (LEDPins ! standardBit) = Some LOW"
    if "p \<noteq> standardBit"
  proof -
    from that assms(2,3) have p: "7 \<le> p" "p < 15"
      by (simp_all add: standardBit_def actionIdx_def)
    from groupHandling_no_52 [OF p, of ?g] obtain evs where
      e: "trace (groupHandling p ?g) = trace ?g @ evs"
         "\<forall>e \<in> set evs. \<forall>v. e \<noteq> DigitalWrite 52 v" by blast
    have "pinLevels (trace (groupHandling p ?g)) 52 = pinLevels (trace ?g) 52"
      unfolding e(1) using e(2) by (rule pinLevels_untouched)
    also have "\<dots> = Some LOW"
      unfolding tg by (simp add: pinLevels_snoc_write LEDPins_def standardBit_def)
    finally have "pinLevels (trace (scanButton p LOW s)) (LEDPins ! standardBit) = Some LOW"
      by (simp add: sc LEDPins_def standardBit_def)
    then show ?thesis
      using bg groupHandling_keeps_standard [OF p, of ?g]
      by (simp add: sc active_def standardBit_def)
  qed
  show ?thesis
    using sc tg bg pre rest by (simp add: active_def standardBit_def)
qed

theorem standard_cleared_first_witness:
  "active (LEDWord standardState) standardBit \<and> actionIdx \<le> purcgBit \<and> purcgBit < 16
   \<and> purcgBit \<noteq> standardBit
   \<and> \<not> active (buttonWord (scanButton purcgBit LOW standardState)) standardBit
   \<and> \<not> active (LEDWord (scanButton purcgBit LOW standardState)) standardBit
   \<and> pinLevels (trace (scanButton purcgBit LOW standardState)) (LEDPins ! standardBit) = Some LOW"
proof -
  have h1: "active (LEDWord standardState) standardBit"
    by (simp add: standardState_fields active_def standardBit_def)
  have h2: "actionIdx \<le> purcgBit" by (simp add: actionIdx_def purcgBit_def)
  have h3: "purcgBit < 16" by (simp add: purcgBit_def)
  have h4: "purcgBit \<noteq> standardBit" by (simp add: purcgBit_def standardBit_def)
  note t = standard_cleared_first [OF h1 h2 h3, unfolded Let_def]
  from t h4 have
    "\<not> active (buttonWord (scanButton purcgBit LOW standardState)) standardBit
     \<and> \<not> active (LEDWord (scanButton purcgBit LOW standardState)) standardBit
     \<and> pinLevels (trace (scanButton purcgBit LOW standardState)) (LEDPins ! standardBit)
         = Some LOW"
    by (elim conjE impE) (assumption, intro conjI, assumption+)
  then show ?thesis
    using h1 h2 h3 h4 by (elim conjE, intro conjI) assumption+
qed

end
